theory Spec2Isabelle
  imports Complex_Main "HOL-Library.Sublist" "HOL-Library.Option_ord" "HOL-Library.Multiset"
begin

section \<open>Values shared by the services\<close>

text \<open>
  A Python \<open>str\<close> is a sequence of Unicode code points: \<open>len\<close> counts code points
  and a slice takes code points, so a string is a list of code points here.
  A naive UTC \<open>datetime\<close> is a point on a linear time axis (microseconds since the epoch);
  \<open>datetime.utcnow()\<close> is read once per call and appears as the argument \<open>now\<close>.
  Integer columns and Python integers are unbounded.
\<close>

type_synonym pystr = "nat list"
type_synonym datetime = int

section \<open>The tables of \<open>models/database.py\<close>\<close>

text \<open>
  One record per mapped class, one field per column. A nullable column is an \<open>option\<close>.
  Columns named \<open>id\<close>, \<open>created_at\<close>, ... occur in several tables and carry the
  table's initial as a prefix.
\<close>

record user_briefing =
  ub_id :: int
  ub_user_id :: int
  ub_briefing_id :: int
  is_sent :: bool
  sent_at :: "datetime option"
  is_read :: bool
  read_at :: "datetime option"
  is_interested :: bool
  ub_created_at :: datetime

record paper =
  p_id :: int
  external_id :: pystr
  source :: pystr
  title :: pystr
  authors :: pystr
  abstract :: pystr
  p_keywords :: "pystr option"
  publish_date :: "datetime option"
  venue :: "pystr option"
  pdf_url :: "pystr option"
  source_url :: pystr
  p_created_at :: datetime
  p_updated_at :: datetime

record briefing =
  b_id :: int
  b_paper_id :: int
  content :: pystr
  ai_model :: "pystr option"
  b_created_at :: datetime

text \<open>
  The database state read and written by the services: each table is the list of its rows
  in the order of their insertion.
\<close>

record database =
  papers :: "paper list"
  briefings :: "briefing list"
  user_briefings :: "user_briefing list"

text \<open>
  \<open>query.first()\<close>: a row that satisfies the filter, or \<open>None\<close> when there is
  none. Where several rows satisfy it the engine picks one; the model takes the oldest.
\<close>

definition first_row :: "('a \<Rightarrow> bool) \<Rightarrow> 'a list \<Rightarrow> 'a option" where
  "first_row P rows = find P rows"

text \<open>
  An integer primary key with \<open>autoincrement=True\<close>: the engine assigns one more than the
  largest key of the table (1 in an empty table).
\<close>

definition next_id :: "int list \<Rightarrow> int" where
  "next_id ids = fold max ids 0 + 1"

section \<open>Delivery state: \<open>BriefingService.mark_user_briefing_*\<close>\<close>

text \<open>
  Each of the three methods looks the row up by primary key, assigns the attributes of the
  loaded object and commits, which writes the changed columns of the row with that key.
  They return \<open>True\<close> after the commit and \<open>False\<close> when the lookup finds nothing.
  The \<open>except\<close> branch (rollback, \<open>False\<close>) is taken only when the session itself
  raises; an update of these columns violates no constraint of the table, so the model has
  no such branch.
\<close>

definition update_user_briefing ::
  "int \<Rightarrow> (user_briefing \<Rightarrow> user_briefing) \<Rightarrow> database \<Rightarrow> database" where
  "update_user_briefing key f db =
     db\<lparr>user_briefings := map (\<lambda>ub. if ub_id ub = key then f ub else ub) (user_briefings db)\<rparr>"

definition mark_user_briefing_sent :: "datetime \<Rightarrow> database \<Rightarrow> int \<Rightarrow> database \<times> bool" where
  "mark_user_briefing_sent now db user_briefing_id =
     (case first_row (\<lambda>ub. ub_id ub = user_briefing_id) (user_briefings db) of
        Some user_briefing \<Rightarrow>
          (update_user_briefing (ub_id user_briefing)
             (\<lambda>ub. ub\<lparr>is_sent := True, sent_at := Some now\<rparr>) db, True)
      | None \<Rightarrow> (db, False))"

definition mark_user_briefing_read :: "datetime \<Rightarrow> database \<Rightarrow> int \<Rightarrow> database \<times> bool" where
  "mark_user_briefing_read now db user_briefing_id =
     (case first_row (\<lambda>ub. ub_id ub = user_briefing_id) (user_briefings db) of
        Some user_briefing \<Rightarrow>
          (update_user_briefing (ub_id user_briefing)
             (\<lambda>ub. ub\<lparr>is_read := True, read_at := Some now\<rparr>) db, True)
      | None \<Rightarrow> (db, False))"

definition mark_user_briefing_interested :: "database \<Rightarrow> int \<Rightarrow> database \<times> bool" where
  "mark_user_briefing_interested db user_briefing_id =
     (case first_row (\<lambda>ub. ub_id ub = user_briefing_id) (user_briefings db) of
        Some user_briefing \<Rightarrow>
          (update_user_briefing (ub_id user_briefing)
             (\<lambda>ub. ub\<lparr>is_interested := True\<rparr>) db, True)
      | None \<Rightarrow> (db, False))"

text \<open>
  A caller's sequence of read and interest marks (the \<open>/read\<close> and \<open>/interested\<close>
  commands and the inline buttons of the bot), each with the clock value of its call.
\<close>

datatype mark_call = MarkRead datetime int | MarkInterested int

fun run_mark_call :: "database \<Rightarrow> mark_call \<Rightarrow> database" where
  "run_mark_call db (MarkRead now i) = fst (mark_user_briefing_read now db i)"
| "run_mark_call db (MarkInterested i) = fst (mark_user_briefing_interested db i)"

definition run_mark_calls :: "database \<Rightarrow> mark_call list \<Rightarrow> database" where
  "run_mark_calls db calls = fold (\<lambda>c d. run_mark_call d c) calls db"

text \<open>The delivery columns of every row, in table order.\<close>

definition sent_columns :: "database \<Rightarrow> (int \<times> bool \<times> datetime option) list" where
  "sent_columns db = map (\<lambda>ub. (ub_id ub, is_sent ub, sent_at ub)) (user_briefings db)"

section \<open>Ingestion: \<open>PaperService._save_paper\<close>\<close>

text \<open>
  The exception a commit raises when a row violates a uniqueness constraint of its table.
\<close>

datatype db_error = IntegrityError

text \<open>
  \<open>PaperMetadata\<close> of \<open>crawlers/base.py\<close>. The field \<open>authors\<close> is declared as
  a list of strings, and \<open>_save_paper\<close> also accepts a string there (its
  \<open>isinstance\<close> test). \<open>raw_data\<close> is never read by the services.
\<close>

datatype authors_value = AuthorsStr pystr | AuthorsList "pystr list"

record paper_metadata =
  md_external_id :: pystr
  md_source :: pystr
  md_title :: pystr
  md_authors :: authors_value
  md_abstract :: pystr
  md_publish_date :: "datetime option"
  md_venue :: "pystr option"
  md_pdf_url :: "pystr option"
  md_source_url :: pystr
  md_keywords :: "pystr list"

text \<open>An ASCII literal as a Python string.\<close>

definition ascii :: "string \<Rightarrow> pystr" where
  "ascii s = map of_char s"

text \<open>\<open>sep.join(parts)\<close>.\<close>

fun str_join :: "pystr \<Rightarrow> pystr list \<Rightarrow> pystr" where
  "str_join sep [] = []"
| "str_join sep [x] = x"
| "str_join sep (x # y # ys) = x @ sep @ str_join sep (y # ys)"

text \<open>
  The \<open>Paper\<close> object \<open>_save_paper\<close> builds from a record. The key is assigned by the
  engine at the insert (the 0 here is not stored); \<open>created_at\<close> and \<open>updated_at\<close>
  take their column default \<open>datetime.utcnow\<close>.
\<close>

definition paper_of_metadata :: "datetime \<Rightarrow> paper_metadata \<Rightarrow> paper" where
  "paper_of_metadata now metadata =
     \<lparr>p_id = 0,
      external_id = md_external_id metadata,
      source = md_source metadata,
      title = md_title metadata,
      authors = (case md_authors metadata of
                   AuthorsStr s \<Rightarrow> s
                 | AuthorsList names \<Rightarrow> str_join (ascii '', '') names),
      abstract = md_abstract metadata,
      p_keywords = (if md_keywords metadata \<noteq> []
                    then Some (str_join (ascii '', '') (md_keywords metadata)) else None),
      publish_date = md_publish_date metadata,
      venue = md_venue metadata,
      pdf_url = md_pdf_url metadata,
      source_url = md_source_url metadata,
      p_created_at = now,
      p_updated_at = now\<rparr>"

text \<open>
  \<open>db.add(paper); db.commit(); db.refresh(paper)\<close> on the table \<open>papers\<close>.
  The column \<open>external_id\<close> is declared \<open>unique=True\<close>: the commit raises when a
  stored row has the same \<open>external_id\<close>, whatever its \<open>source\<close>. The index
  \<open>ix_papers_source_external_id\<close> is not unique and constrains nothing.
\<close>

definition add_paper :: "database \<Rightarrow> paper \<Rightarrow> db_error + database \<times> paper" where
  "add_paper db row =
     (if external_id row \<in> set (map external_id (papers db)) then Inl IntegrityError
      else let paper = row\<lparr>p_id := next_id (map p_id (papers db))\<rparr>
           in Inr (db\<lparr>papers := papers db @ [paper]\<rparr>, paper))"

text \<open>
  \<open>_save_paper\<close>: \<open>None\<close> when a row with the record's \<open>external_id\<close> and
  \<open>source\<close> exists, the stored paper after a successful insert, and \<open>None\<close> after
  a rollback when the insert raised.
\<close>

definition save_paper :: "datetime \<Rightarrow> database \<Rightarrow> paper_metadata \<Rightarrow> database \<times> paper option" where
  "save_paper now db metadata =
     (case first_row (\<lambda>p. external_id p = md_external_id metadata \<and> source p = md_source metadata)
             (papers db) of
        Some existing \<Rightarrow> (db, None)
      | None \<Rightarrow>
          (case add_paper db (paper_of_metadata now metadata) of
             Inr (db', paper) \<Rightarrow> (db', Some paper)
           | Inl e \<Rightarrow> (db, None)))"

text \<open>
  The loop of \<open>_fetch_arxiv_papers\<close> and \<open>_fetch_openreview_papers\<close> over the records
  a crawler yields, each with the clock value of its save: a paper is appended to the
  returned list when \<open>_save_paper\<close> returns one.
\<close>

fun save_fetched_papers ::
  "database \<Rightarrow> (datetime \<times> paper_metadata) list \<Rightarrow> database \<times> paper list" where
  "save_fetched_papers db [] = (db, [])"
| "save_fetched_papers db ((now, metadata) # records) =
     (case save_paper now db metadata of
        (db', Some paper) \<Rightarrow>
          (case save_fetched_papers db' records of (db'', saved) \<Rightarrow> (db'', paper # saved))
      | (db', None) \<Rightarrow> save_fetched_papers db' records)"

definition empty_database :: database where
  "empty_database = \<lparr>papers = [], briefings = [], user_briefings = []\<rparr>"

section \<open>Briefing text: \<open>AIService\<close>\<close>

text \<open>
  The settings the services read. A key is configured when it is a non-empty string
  (the truth value Python gives an \<open>Optional[str]\<close>).
\<close>

record settings =
  openai_api_key :: "pystr option"
  anthropic_api_key :: "pystr option"
  max_papers_per_day :: int

definition truthy :: "pystr option \<Rightarrow> bool" where
  "truthy s = (case s of None \<Rightarrow> False | Some k \<Rightarrow> k \<noteq> [])"

text \<open>
  The literal parts of the two f-strings of \<open>ai_service.py\<close>, as code points, cut at the
  replacement fields. \<open>fallback_head\<close> is U+1F4C4, a space and two asterisks;
  \<open>fallback_middle\<close> closes the bold title and opens the abstract section;
  \<open>fallback_note\<close> is the closing note that the AI service is unavailable.
  The \<open>prompt_*\<close> parts are the prompt template in order, and \<open>venue_label\<close> is the
  label of the optional venue line.
\<close>

definition fallback_head :: pystr where
  "fallback_head =
     [128196, 32, 42, 42]"

definition fallback_middle :: pystr where
  "fallback_middle =
     [42, 42, 10, 10, 128221, 32, 42, 42, 25688, 35201, 42, 42, 58, 10]"

definition fallback_note :: pystr where
  "fallback_note =
     [10, 10, 9888, 65039, 32, 42, 27880, 65306, 65, 73, 32, 26381, 21153, 26242, 26102,
      19981, 21487, 29992, 65292, 20197, 19978, 20026, 21407, 22987, 25688, 35201, 12290]"

definition prompt_intro :: pystr where
  "prompt_intro =
     [35831, 20026, 20197, 19979, 23398, 26415, 35770, 25991, 29983, 25104, 19968, 20221,
      31616, 27905, 30340, 31616, 25253, 65288, 29992, 20013, 25991, 65289, 65306, 10, 10,
      35770, 25991, 26631, 39064, 58, 32]"

definition prompt_authors :: pystr where
  "prompt_authors =
     [10, 20316, 32773, 58, 32]"

definition prompt_after_authors :: pystr where
  "prompt_after_authors =
     [10]"

definition prompt_abstract :: pystr where
  "prompt_abstract =
     [25688, 35201, 58, 10]"

definition prompt_format :: pystr where
  "prompt_format =
     [10, 10, 35831, 25353, 29031, 20197, 19979, 26684, 24335, 29983, 25104, 31616, 25253,
      65306, 10, 10, 128196, 32, 42, 42]"

definition prompt_format_authors :: pystr where
  "prompt_format_authors =
     [42, 42, 10, 10, 128101, 32, 42, 42, 20316, 32773, 42, 42, 58, 32]"

definition prompt_rest :: pystr where
  "prompt_rest =
     [10, 10, 127919, 32, 42, 42, 26680, 24515, 36129, 29486, 42, 42, 58, 10, 45, 32, 91,
      31616, 35201, 27010, 25324, 35770, 25991, 30340, 20027, 35201, 36129, 29486, 65292,
      50, 45, 51, 28857, 93, 10, 10, 128269, 32, 42, 42, 26041, 27861, 27010, 36848, 42, 42,
      58, 10, 91, 31616, 35201, 25551, 36848, 35770, 25991, 20351, 29992, 30340, 26041,
      27861, 65292, 49, 45, 50, 21477, 35805, 93, 10, 10, 128202, 32, 42, 42, 20027, 35201,
      32467, 26524, 42, 42, 58, 10, 91, 22914, 26524, 26377, 23454, 39564, 32467, 26524,
      65292, 31616, 35201, 27010, 25324, 93, 10, 10, 128161, 32, 42, 42, 20851, 38190,
      35265, 35299, 42, 42, 58, 10, 91, 35770, 25991, 30340, 26680, 24515, 35266, 28857,
      25110, 21019, 26032, 28857, 93, 10, 10, 35831, 30830, 20445, 31616, 25253, 31616,
      27905, 26126, 20102, 65292, 31361, 20986, 35770, 25991, 30340, 26680, 24515, 20215,
      20540, 12290]"

definition venue_label :: pystr where
  "venue_label =
     [21457, 34920, 20250, 35758, 47, 26399, 21002, 58, 32]"

definition ellipsis :: pystr where
  "ellipsis = ascii ''...''"

text \<open>
  \<open>_fallback_summary(title, abstract)\<close>: the title, the first 500 characters of the
  abstract, three dots when the abstract has more than 500 characters, and the note.
\<close>

definition fallback_summary :: "pystr \<Rightarrow> pystr \<Rightarrow> pystr" where
  "fallback_summary title_arg abstract_arg =
     fallback_head @ title_arg @ fallback_middle
       @ take 500 abstract_arg @ (if length abstract_arg > 500 then ellipsis else [])
       @ fallback_note"

text \<open>\<open>_build_briefing_prompt\<close>; the venue line appears for a non-empty venue.\<close>

definition build_briefing_prompt :: "pystr \<Rightarrow> pystr \<Rightarrow> pystr \<Rightarrow> pystr option \<Rightarrow> pystr" where
  "build_briefing_prompt title_arg authors_arg abstract_arg venue_arg =
     (let venue_info = (case venue_arg of
                          Some v \<Rightarrow> if v \<noteq> [] then venue_label @ v @ [10] else []
                        | None \<Rightarrow> [])
      in prompt_intro @ title_arg @ prompt_authors @ authors_arg @ prompt_after_authors
           @ venue_info @ prompt_abstract @ abstract_arg
           @ prompt_format @ title_arg @ prompt_format_authors @ authors_arg @ prompt_rest)"

text \<open>
  \<open>str.strip()\<close> removes the characters for which \<open>str.isspace\<close> holds from both
  ends.
\<close>

definition is_space :: "nat \<Rightarrow> bool" where
  "is_space c =
     ((9 \<le> c \<and> c \<le> 13) \<or> (28 \<le> c \<and> c \<le> 32) \<or> c = 133 \<or> c = 160 \<or> c = 5760
      \<or> (8192 \<le> c \<and> c \<le> 8202) \<or> c = 8232 \<or> c = 8233 \<or> c = 8239 \<or> c = 8287
      \<or> c = 12288)"

definition strip :: "pystr \<Rightarrow> pystr" where
  "strip s = rev (dropWhile is_space (rev (dropWhile is_space s)))"

text \<open>
  What the \<open>try\<close> block of \<open>_generate_with_openai\<close> and \<open>_generate_with_anthropic\<close>
  does with the remote service: the request returns a message text, or some statement of
  the block raises.
\<close>

datatype api_outcome = Completed pystr | Raised

definition generate_with_openai :: "api_outcome \<Rightarrow> pystr \<Rightarrow> pystr" where
  "generate_with_openai outcome prompt =
     (case outcome of
        Completed text \<Rightarrow> strip text
      | Raised \<Rightarrow> fallback_summary prompt [])"

definition generate_with_anthropic :: "api_outcome \<Rightarrow> pystr \<Rightarrow> pystr" where
  "generate_with_anthropic outcome prompt =
     (case outcome of
        Completed text \<Rightarrow> strip text
      | Raised \<Rightarrow> fallback_summary prompt [])"

text \<open>
  \<open>generate_briefing\<close>. The properties \<open>openai_client\<close> and \<open>anthropic_client\<close>
  yield a client exactly when the key is configured.
\<close>

definition generate_briefing ::
  "settings \<Rightarrow> api_outcome \<Rightarrow> pystr \<Rightarrow> pystr \<Rightarrow> pystr \<Rightarrow> pystr option \<Rightarrow> pystr" where
  "generate_briefing cfg outcome title_arg authors_arg abstract_arg venue_arg =
     (let prompt = build_briefing_prompt title_arg authors_arg abstract_arg venue_arg
      in if truthy (openai_api_key cfg) then generate_with_openai outcome prompt
         else if truthy (anthropic_api_key cfg) then generate_with_anthropic outcome prompt
         else fallback_summary title_arg abstract_arg)"


text \<open>\<open>str.lower\<close> on ASCII text, for the examples.\<close>

definition ascii_lower :: "pystr \<Rightarrow> pystr" where
  "ascii_lower s = map (\<lambda>c. if 65 \<le> c \<and> c \<le> 90 then c + 32 else c) s"

section \<open>Research fields, users and the SQL they drive\<close>

record research_field =
  rf_id :: int
  rf_name :: pystr
  rf_keywords :: "pystr option"

record user =
  u_id :: int
  telegram_id :: pystr
  daily_paper_limit :: int
  research_fields :: "research_field list"

text \<open>\<open>s.split(sep)\<close> for a one-character separator.\<close>

fun split_at :: "nat \<Rightarrow> pystr \<Rightarrow> pystr list" where
  "split_at sep [] = [[]]"
| "split_at sep (c # cs) =
     (if c = sep then [] # split_at sep cs
      else (case split_at sep cs of w # ws \<Rightarrow> (c # w) # ws | [] \<Rightarrow> [[c]]))"

text \<open>\<open>ResearchField.get_keywords_list\<close>: the stripped, non-empty parts between commas.\<close>

definition get_keywords_list :: "research_field \<Rightarrow> pystr list" where
  "get_keywords_list field =
     (case rf_keywords field of
        Some kws \<Rightarrow>
          if kws \<noteq> [] then map strip (filter (\<lambda>kw. strip kw \<noteq> []) (split_at 44 kws)) else []
      | None \<Rightarrow> [])"

text \<open>
  The keyword filter the three queries build: for each keyword the pattern
  \<open>%keyword%\<close> is matched with \<open>ILIKE\<close> against the columns \<open>title\<close>,
  \<open>abstract\<close> and \<open>keywords\<close>, and the conditions are joined with \<open>OR\<close>.
  The engine's \<open>ILIKE\<close> is the parameter \<open>ilike value pattern\<close>; on a \<open>NULL\<close>
  column it is not true.
\<close>

definition keyword_condition :: "(pystr \<Rightarrow> pystr \<Rightarrow> bool) \<Rightarrow> pystr \<Rightarrow> paper \<Rightarrow> bool" where
  "keyword_condition ilike keyword p =
     (let pattern = ascii ''%'' @ keyword @ ascii ''%''
      in ilike (title p) pattern \<or> ilike (abstract p) pattern
         \<or> (case p_keywords p of Some k \<Rightarrow> ilike k pattern | None \<Rightarrow> False))"

definition keyword_conditions :: "(pystr \<Rightarrow> pystr \<Rightarrow> bool) \<Rightarrow> pystr list \<Rightarrow> paper \<Rightarrow> bool" where
  "keyword_conditions ilike all_keywords p = list_ex (\<lambda>keyword. keyword_condition ilike keyword p) all_keywords"

text \<open>
  \<open>ILIKE\<close> as the configured default engine evaluates it. SQLAlchemy renders
  \<open>column.ilike(pattern)\<close> for SQLite as \<open>lower(column) LIKE lower(pattern)\<close>, and
  SQLite's \<open>lower\<close> changes the ASCII letters only. In a \<open>LIKE\<close> pattern \<open>%\<close>
  (37) matches any sequence of characters and \<open>_\<close> (95) any one character; the
  queries give no escape character.
\<close>

fun like_match :: "pystr \<Rightarrow> pystr \<Rightarrow> bool" where
  "like_match [] [] = True"
| "like_match (c # cs) [] = False"
| "like_match [] (p # ps) = (p = 37 \<and> like_match [] ps)"
| "like_match (c # cs) (p # ps) =
     (if p = 37 then like_match (c # cs) ps \<or> like_match cs (p # ps)
      else (p = 95 \<or> c = p) \<and> like_match cs ps)"

definition sqlite_ilike :: "pystr \<Rightarrow> pystr \<Rightarrow> bool" where
  "sqlite_ilike v pattern = like_match (ascii_lower v) (ascii_lower pattern)"

text \<open>
  \<open>ORDER BY key DESC\<close>: the rows by descending key. The queries name no second sort
  key, so rows with equal keys come in the order in which the engine happens to yield
  them (its scan of the table or of an index). That order is the parameter \<open>scan\<close> of
  the queries below, applied to the rows that satisfy the \<open>WHERE\<close> clause; the sort
  keeps rows with equal keys in scan order. On the nullable \<open>publish_date\<close> a
  \<open>NULL\<close> is the smallest key and comes last, as in SQLite, the configured default
  engine.
\<close>

fun insert_desc :: "('a \<Rightarrow> 'k::linorder) \<Rightarrow> 'a \<Rightarrow> 'a list \<Rightarrow> 'a list" where
  "insert_desc key x [] = [x]"
| "insert_desc key x (y # ys) =
     (if key y \<le> key x then x # y # ys else y # insert_desc key x ys)"

definition order_by_desc :: "('a \<Rightarrow> 'k::linorder) \<Rightarrow> 'a list \<Rightarrow> 'a list" where
  "order_by_desc key rows = foldr (insert_desc key) rows []"

text \<open>
  \<open>LIMIT n\<close>: the first \<open>n\<close> rows; a negative count does not bound the result
  (SQLite).
\<close>

definition limit_rows :: "int \<Rightarrow> 'a list \<Rightarrow> 'a list" where
  "limit_rows n rows = (if n < 0 then rows else take (nat n) rows)"

section \<open>Candidate selection: \<open>BriefingService._get_pending_papers\<close>\<close>

text \<open>\<open>Paper LEFT OUTER JOIN Briefing ON Paper.id = Briefing.paper_id\<close>.\<close>

definition outerjoin_briefing :: "paper list \<Rightarrow> briefing list \<Rightarrow> (paper \<times> briefing option) list" where
  "outerjoin_briefing ps bs =
     concat (map (\<lambda>p. case filter (\<lambda>b. b_paper_id b = p_id p) bs of
                         [] \<Rightarrow> [(p, None)]
                       | ms \<Rightarrow> map (\<lambda>b. (p, Some b)) ms) ps)"

text \<open>\<open>timedelta(days=7)\<close> in microseconds.\<close>

definition seven_days :: int where
  "seven_days = 7 * 86400000000"

text \<open>
  The keyword restriction shared by \<open>_get_pending_papers\<close>,
  \<open>get_papers_for_briefing\<close> and \<open>create_user_briefings\<close>: with no keyword the query
  is left as it is.
\<close>

definition filter_by_keywords ::
  "(pystr \<Rightarrow> pystr \<Rightarrow> bool) \<Rightarrow> pystr list \<Rightarrow> ('a \<Rightarrow> paper) \<Rightarrow> 'a list \<Rightarrow> 'a list" where
  "filter_by_keywords ilike all_keywords paper_of query =
     (if all_keywords \<noteq> []
      then filter (\<lambda>row. keyword_conditions ilike all_keywords (paper_of row)) query
      else query)"

definition get_pending_papers ::
  "(pystr \<Rightarrow> pystr \<Rightarrow> bool)
     \<Rightarrow> ((paper \<times> briefing option) list \<Rightarrow> (paper \<times> briefing option) list)
     \<Rightarrow> datetime \<Rightarrow> database \<Rightarrow> int \<Rightarrow> research_field list option \<Rightarrow> paper list" where
  "get_pending_papers ilike scan now db limit research_fields_arg =
     (let since = now - seven_days;
          query = filter (\<lambda>(p, b). b = None
                            \<and> (case publish_date p of Some d \<Rightarrow> since \<le> d | None \<Rightarrow> False))
                    (outerjoin_briefing (papers db) (briefings db));
          query = (case research_fields_arg of
                     Some rfs \<Rightarrow>
                       if rfs \<noteq> []
                       then filter_by_keywords ilike (concat (map get_keywords_list rfs)) fst query
                       else query
                   | None \<Rightarrow> query)
      in map fst (limit_rows limit (order_by_desc (\<lambda>(p, b). publish_date p) (scan query))))"

text \<open>
  \<open>PaperService.get_papers_for_briefing\<close>: the same query with an optional start date
  and an optional limit (\<open>if limit:\<close> skips 0 as well).
\<close>

definition get_papers_for_briefing ::
  "(pystr \<Rightarrow> pystr \<Rightarrow> bool)
     \<Rightarrow> ((paper \<times> briefing option) list \<Rightarrow> (paper \<times> briefing option) list)
     \<Rightarrow> database \<Rightarrow> int option \<Rightarrow> datetime option \<Rightarrow> research_field list option
     \<Rightarrow> paper list" where
  "get_papers_for_briefing ilike scan db limit since research_fields_arg =
     (let query = filter (\<lambda>(p, b). b = None) (outerjoin_briefing (papers db) (briefings db));
          query = (case since of
                     Some s \<Rightarrow> filter (\<lambda>(p, b). case publish_date p of Some d \<Rightarrow> s \<le> d
                                                                  | None \<Rightarrow> False) query
                   | None \<Rightarrow> query);
          query = (case research_fields_arg of
                     Some rfs \<Rightarrow>
                       if rfs \<noteq> []
                       then filter_by_keywords ilike (concat (map get_keywords_list rfs)) fst query
                       else query
                   | None \<Rightarrow> query);
          query = order_by_desc (\<lambda>(p, b). publish_date p) (scan query);
          query = (case limit of
                     Some n \<Rightarrow> if n \<noteq> 0 then limit_rows n query else query
                   | None \<Rightarrow> query)
      in map fst query)"

section \<open>Briefing generation: \<open>BriefingService.generate_briefings\<close>\<close>

text \<open>
  \<open>db.add(briefing); db.commit(); db.refresh(briefing)\<close> on the table \<open>briefings\<close>.
  The column \<open>paper_id\<close> is declared with \<open>nullable=False\<close> and \<open>index=True\<close>
  and no uniqueness: the table has no constraint a new row could violate, and the insert
  does not raise.
\<close>

definition add_briefing :: "database \<Rightarrow> briefing \<Rightarrow> db_error + database \<times> briefing" where
  "add_briefing db row =
     (let stored = row\<lparr>b_id := next_id (map b_id (briefings db))\<rparr>
      in Inr (db\<lparr>briefings := briefings db @ [stored]\<rparr>, stored))"

text \<open>
  \<open>_generate_single_briefing\<close> in its two database steps: the lookup of an existing
  briefing of the paper, and, when there is none, the generation of the text and the insert
  (\<open>store_briefing\<close>). The key is assigned at the insert (the 0 is not stored).
\<close>

definition lookup_briefing :: "database \<Rightarrow> paper \<Rightarrow> briefing option" where
  "lookup_briefing db paper = first_row (\<lambda>b. b_paper_id b = p_id paper) (briefings db)"

definition store_briefing ::
  "settings \<Rightarrow> api_outcome \<Rightarrow> datetime \<Rightarrow> database \<Rightarrow> paper \<Rightarrow> database \<times> briefing option" where
  "store_briefing cfg outcome now db paper =
     (let text = generate_briefing cfg outcome (title paper) (authors paper) (abstract paper)
                   (venue paper);
          model = (if truthy (openai_api_key cfg) then ascii ''openai''
                   else if truthy (anthropic_api_key cfg) then ascii ''anthropic''
                   else ascii ''fallback'');
          briefing = \<lparr>b_id = 0, b_paper_id = p_id paper, content = text,
                      ai_model = Some model, b_created_at = now\<rparr>
      in case add_briefing db briefing of
           Inr (db', stored) \<Rightarrow> (db', Some stored)
         | Inl e \<Rightarrow> (db, None))"

definition generate_single_briefing ::
  "settings \<Rightarrow> api_outcome \<Rightarrow> datetime \<Rightarrow> database \<Rightarrow> paper \<Rightarrow> database \<times> briefing option" where
  "generate_single_briefing cfg outcome now db paper =
     (case lookup_briefing db paper of
        Some existing \<Rightarrow> (db, Some existing)
      | None \<Rightarrow> store_briefing cfg outcome now db paper)"

text \<open>
  The loop of \<open>generate_briefings\<close>. \<open>collaborator paper\<close> is what the generation
  service does for the paper and the clock value of its insert.
\<close>

fun generate_loop ::
  "settings \<Rightarrow> (paper \<Rightarrow> api_outcome \<times> datetime) \<Rightarrow> database \<Rightarrow> paper list
     \<Rightarrow> database \<times> briefing list" where
  "generate_loop cfg collaborator db [] = (db, [])"
| "generate_loop cfg collaborator db (paper # rest) =
     (case generate_single_briefing cfg (fst (collaborator paper)) (snd (collaborator paper))
             db paper of
        (db', Some briefing) \<Rightarrow>
          (case generate_loop cfg collaborator db' rest of
             (db'', generated) \<Rightarrow> (db'', briefing # generated))
      | (db', None) \<Rightarrow> generate_loop cfg collaborator db' rest)"

definition generate_briefings ::
  "settings \<Rightarrow> (pystr \<Rightarrow> pystr \<Rightarrow> bool)
     \<Rightarrow> ((paper \<times> briefing option) list \<Rightarrow> (paper \<times> briefing option) list)
     \<Rightarrow> (paper \<Rightarrow> api_outcome \<times> datetime) \<Rightarrow> datetime \<Rightarrow> database
     \<Rightarrow> paper list option \<Rightarrow> int option \<Rightarrow> research_field list option
     \<Rightarrow> database \<times> briefing list" where
  "generate_briefings cfg ilike scan collaborator now db papers_arg max_papers research_fields_arg =
     (let max_papers = (case max_papers of
                          Some n \<Rightarrow> if n \<noteq> 0 then n else max_papers_per_day cfg
                        | None \<Rightarrow> max_papers_per_day cfg);
          selected = (case papers_arg of
                        None \<Rightarrow> get_pending_papers ilike scan now db max_papers research_fields_arg
                      | Some ps \<Rightarrow> ps)
      in generate_loop cfg collaborator db selected)"

text \<open>
  Invocations of \<open>_generate_single_briefing\<close> that overlap in time (the scheduler's job
  and a manual \<open>generate\<close> run work on the same database, each through a session of
  its own). An invocation has looked up or not, and every database step of one invocation
  is atomic; a schedule names the invocation that takes its next step.
\<close>

datatype generation = Started paper | Looked paper "briefing option" | Returned "briefing option"

fun generation_step ::
  "settings \<Rightarrow> api_outcome \<Rightarrow> datetime \<Rightarrow> database \<Rightarrow> generation \<Rightarrow> database \<times> generation" where
  "generation_step cfg outcome now db (Started paper) = (db, Looked paper (lookup_briefing db paper))"
| "generation_step cfg outcome now db (Looked paper (Some existing)) = (db, Returned (Some existing))"
| "generation_step cfg outcome now db (Looked paper None) =
     (case store_briefing cfg outcome now db paper of (db', result) \<Rightarrow> (db', Returned result))"
| "generation_step cfg outcome now db (Returned result) = (db, Returned result)"

fun run_schedule ::
  "settings \<Rightarrow> api_outcome \<Rightarrow> datetime \<Rightarrow> database \<times> generation list \<Rightarrow> nat list
     \<Rightarrow> database \<times> generation list" where
  "run_schedule cfg outcome now (db, invocations) [] = (db, invocations)"
| "run_schedule cfg outcome now (db, invocations) (i # schedule) =
     (if i < length invocations
      then (case generation_step cfg outcome now db (invocations ! i) of
              (db', invocation) \<Rightarrow>
                run_schedule cfg outcome now (db', invocations[i := invocation]) schedule)
      else run_schedule cfg outcome now (db, invocations) schedule)"

section \<open>Fan-out: \<open>BriefingService.create_user_briefings\<close>\<close>

text \<open>\<open>Briefing JOIN Paper\<close> on the foreign key \<open>briefings.paper_id = papers.id\<close>.\<close>

definition join_paper :: "briefing list \<Rightarrow> paper list \<Rightarrow> (briefing \<times> paper) list" where
  "join_paper bs ps =
     concat (map (\<lambda>b. map (\<lambda>p. (b, p)) (filter (\<lambda>p. p_id p = b_paper_id b) ps)) bs)"

text \<open>
  The commit of the added \<open>UserBriefing\<close> objects. The index
  \<open>ix_user_briefings_user_briefing\<close> on \<open>(user_id, briefing_id)\<close> is unique: the
  commit raises when a new row repeats the pair of a stored row or of another new row.
  Otherwise the rows get consecutive keys in the order in which they were added.
\<close>

fun assign_ids :: "int \<Rightarrow> user_briefing list \<Rightarrow> user_briefing list" where
  "assign_ids k [] = []"
| "assign_ids k (ub # ubs) = ub\<lparr>ub_id := k\<rparr> # assign_ids (k + 1) ubs"

definition add_user_briefings ::
  "database \<Rightarrow> user_briefing list \<Rightarrow> db_error + database \<times> user_briefing list" where
  "add_user_briefings db rows =
     (let pair = (\<lambda>ub. (ub_user_id ub, ub_briefing_id ub))
      in if \<not> distinct (map pair rows)
            \<or> (\<exists>ub \<in> set rows. pair ub \<in> set (map pair (user_briefings db)))
         then Inl IntegrityError
         else let stored = assign_ids (next_id (map ub_id (user_briefings db))) rows
              in Inr (db\<lparr>user_briefings := user_briefings db @ stored\<rparr>, stored))"

text \<open>
  The briefings \<open>create_user_briefings\<close> selects from before it orders and limits them:
  the joined rows whose briefing is not yet assigned to the user, restricted by the
  keywords of the user's research fields when there are any.
\<close>

definition unassigned_briefings ::
  "(pystr \<Rightarrow> pystr \<Rightarrow> bool) \<Rightarrow> database \<Rightarrow> user \<Rightarrow> (briefing \<times> paper) list" where
  "unassigned_briefings ilike db usr =
     (let all_keywords = concat (map get_keywords_list (research_fields usr));
          existing_briefing_ids =
            map ub_briefing_id (filter (\<lambda>ub. ub_user_id ub = u_id usr) (user_briefings db));
          query = filter (\<lambda>(b, p). b_id b \<notin> set existing_briefing_ids)
                    (join_paper (briefings db) (papers db))
      in filter_by_keywords ilike all_keywords snd query)"

definition create_user_briefings ::
  "(pystr \<Rightarrow> pystr \<Rightarrow> bool) \<Rightarrow> ((briefing \<times> paper) list \<Rightarrow> (briefing \<times> paper) list)
     \<Rightarrow> datetime \<Rightarrow> database \<Rightarrow> user \<Rightarrow> database \<times> user_briefing list" where
  "create_user_briefings ilike scan now db usr =
     (let selected = map fst (limit_rows (daily_paper_limit usr * 3)
                       (order_by_desc (\<lambda>(b, p). publish_date p)
                          (scan (unassigned_briefings ilike db usr))));
          new_rows = map (\<lambda>briefing.
                        \<lparr>ub_id = 0, ub_user_id = u_id usr, ub_briefing_id = b_id briefing,
                         is_sent = False, sent_at = None, is_read = False, read_at = None,
                         is_interested = False, ub_created_at = now\<rparr>) selected
      in case add_user_briefings db new_rows of
           Inr (db', stored) \<Rightarrow> (db', stored)
         | Inl e \<Rightarrow> (db, []))"

section \<open>Example data\<close>

definition example_user_briefing :: user_briefing where
  "example_user_briefing =
     \<lparr>ub_id = 7, ub_user_id = 1, ub_briefing_id = 3, is_sent = True, sent_at = Some 50,
      is_read = False, read_at = None, is_interested = False, ub_created_at = 10\<rparr>"

definition example_delivery_db :: database where
  "example_delivery_db = \<lparr>papers = [], briefings = [], user_briefings = [example_user_briefing]\<rparr>"

definition other_user_briefing :: user_briefing where
  "other_user_briefing =
     \<lparr>ub_id = 9, ub_user_id = 1, ub_briefing_id = 4, is_sent = False, sent_at = None,
      is_read = True, read_at = Some 60, is_interested = True, ub_created_at = 20\<rparr>"

definition two_row_delivery_db :: database where
  "two_row_delivery_db =
     \<lparr>papers = [], briefings = [],
      user_briefings = [example_user_briefing, other_user_briefing]\<rparr>"

definition example_metadata :: paper_metadata where
  "example_metadata =
     \<lparr>md_external_id = ascii ''1234.5678'', md_source = ascii ''arxiv'',
      md_title = ascii ''A TRANSFORMER Model'', md_authors = AuthorsList [ascii ''A. One'', ascii ''B. Two''],
      md_abstract = ascii ''We study attention.'', md_publish_date = Some 1000,
      md_venue = None, md_pdf_url = None, md_source_url = ascii ''http://arxiv.org/abs/1234.5678'',
      md_keywords = [ascii ''cs.LG'', ascii ''cs.CL'']\<rparr>"

definition example_paper :: paper where
  "example_paper =
     \<lparr>p_id = 1, external_id = ascii ''1234.5678'', source = ascii ''arxiv'',
      title = ascii ''A TRANSFORMER Model'', authors = ascii ''A. One, B. Two'',
      abstract = ascii ''We study attention.'', p_keywords = Some (ascii ''cs.LG, cs.CL''),
      publish_date = Some 1000, venue = None, pdf_url = None,
      source_url = ascii ''http://arxiv.org/abs/1234.5678'',
      p_created_at = 5, p_updated_at = 5\<rparr>"

definition example_paper_db :: database where
  "example_paper_db = \<lparr>papers = [example_paper], briefings = [], user_briefings = []\<rparr>"


definition openai_settings :: settings where
  "openai_settings =
     \<lparr>openai_api_key = Some (ascii ''sk-test''), anthropic_api_key = None, max_papers_per_day = 10\<rparr>"

definition no_backend_settings :: settings where
  "no_backend_settings =
     \<lparr>openai_api_key = None, anthropic_api_key = None, max_papers_per_day = 10\<rparr>"

definition second_metadata :: paper_metadata where
  "second_metadata =
     example_metadata\<lparr>md_external_id := ascii ''2222.0002'', md_title := ascii ''Another Model''\<rparr>"

definition two_papers_db :: database where
  "two_papers_db =
     fst (save_fetched_papers empty_database [(5, example_metadata), (6, second_metadata)])"

definition fanout_db :: database where
  "fanout_db =
     \<lparr>papers = map (\<lambda>i. example_paper\<lparr>p_id := i, external_id := [nat i], publish_date := Some i\<rparr>)
                 [1..20],
      briefings = map (\<lambda>i. \<lparr>b_id = i, b_paper_id = i, content = ascii ''text'',
                             ai_model = Some (ascii ''fallback''), b_created_at = 0\<rparr>) [1..20],
      user_briefings = []\<rparr>"

definition fanout_user :: user where
  "fanout_user =
     \<lparr>u_id = 1, telegram_id = ascii ''42'', daily_paper_limit = 5, research_fields = []\<rparr>"

definition selection_db :: database where
  "selection_db =
     \<lparr>papers =
        [example_paper\<lparr>p_id := 1, publish_date := Some 1000\<rparr>,
         example_paper\<lparr>p_id := 2, external_id := ascii ''2'', title := ascii ''Transformer two'',
                        publish_date := Some 1000\<rparr>,
         example_paper\<lparr>p_id := 3, external_id := ascii ''3'', title := ascii ''Transformers again'',
                        publish_date := Some 2000\<rparr>,
         example_paper\<lparr>p_id := 4, external_id := ascii ''4'', title := ascii ''Quantum'',
                        abstract := ascii ''physics'', p_keywords := None,
                        publish_date := Some 3000\<rparr>,
         example_paper\<lparr>p_id := 5, external_id := ascii ''5'', title := ascii ''Old transformer'',
                        publish_date := Some 999\<rparr>,
         example_paper\<lparr>p_id := 6, external_id := ascii ''6'', title := ascii ''Briefed transformer'',
                        publish_date := Some 4000\<rparr>,
         example_paper\<lparr>p_id := 7, external_id := ascii ''7'', title := ascii ''Undated transformer'',
                        publish_date := None\<rparr>],
      briefings = [\<lparr>b_id = 1, b_paper_id = 6, content = ascii ''text'',
                   ai_model = Some (ascii ''fallback''), b_created_at = 0\<rparr>],
      user_briefings = []\<rparr>"

definition selection_field :: research_field where
  "selection_field =
     \<lparr>rf_id = 1, rf_name = ascii ''nlp'', rf_keywords = Some (ascii ''transformer, attention'')\<rparr>"

definition selection_now :: datetime where
  "selection_now = seven_days + 1000"

section \<open>Properties of the delivery state\<close>

lemma first_row_key:
  "first_row (\<lambda>ub. ub_id ub = i) rows = Some r \<Longrightarrow> ub_id r = i \<and> r \<in> set rows"
  unfolding first_row_def by (induction rows) (auto split: if_splits)

lemma first_row_none:
  "first_row (\<lambda>ub. ub_id ub = i) rows = None \<longleftrightarrow> (\<forall>r \<in> set rows. ub_id r \<noteq> i)"
  unfolding first_row_def by (induction rows) auto

lemma sent_columns_read:
  "sent_columns (fst (mark_user_briefing_read now db i)) = sent_columns db"
  by (simp add: mark_user_briefing_read_def sent_columns_def update_user_briefing_def
      split: option.splits)

lemma sent_columns_interested:
  "sent_columns (fst (mark_user_briefing_interested db i)) = sent_columns db"
  by (simp add: mark_user_briefing_interested_def sent_columns_def update_user_briefing_def
      split: option.splits)

lemma sent_columns_call: "sent_columns (run_mark_call db c) = sent_columns db"
  by (cases c) (simp_all add: sent_columns_read sent_columns_interested)

lemma sent_columns_fold:
  "sent_columns (fold (\<lambda>c d. run_mark_call d c) calls db) = sent_columns db"
  by (induction calls arbitrary: db) (simp_all add: sent_columns_call)

text \<open>
  C7. The sent flag is monotonic under read and interest marks. After any sequence of
  \<open>mark_user_briefing_read\<close> and \<open>mark_user_briefing_interested\<close> calls, every row
  has the \<open>is_sent\<close> and \<open>sent_at\<close> it had before, so a row that was sent stays sent;
  a read mark changes nothing but \<open>is_read\<close> and \<open>read_at\<close>, an interest mark
  nothing but \<open>is_interested\<close>, and neither touches another table.
\<close>

theorem sent_flag_monotonic:
  "sent_columns (run_mark_calls db calls) = sent_columns db
   \<and> map (\<lambda>ub. ub\<lparr>is_read := False, read_at := None\<rparr>)
        (user_briefings (fst (mark_user_briefing_read now db i)))
     = map (\<lambda>ub. ub\<lparr>is_read := False, read_at := None\<rparr>) (user_briefings db)
   \<and> map (\<lambda>ub. ub\<lparr>is_interested := False\<rparr>)
        (user_briefings (fst (mark_user_briefing_interested db i)))
     = map (\<lambda>ub. ub\<lparr>is_interested := False\<rparr>) (user_briefings db)
   \<and> papers (fst (mark_user_briefing_read now db i)) = papers db
   \<and> briefings (fst (mark_user_briefing_read now db i)) = briefings db
   \<and> papers (fst (mark_user_briefing_interested db i)) = papers db
   \<and> briefings (fst (mark_user_briefing_interested db i)) = briefings db"
proof -
  have seq: "sent_columns (run_mark_calls db calls) = sent_columns db"
    by (simp add: run_mark_calls_def sent_columns_fold)
  have rd: "map (\<lambda>ub. ub\<lparr>is_read := False, read_at := None\<rparr>)
        (user_briefings (fst (mark_user_briefing_read now db i)))
     = map (\<lambda>ub. ub\<lparr>is_read := False, read_at := None\<rparr>) (user_briefings db)"
    by (simp add: mark_user_briefing_read_def update_user_briefing_def split: option.splits)
  have intr: "map (\<lambda>ub. ub\<lparr>is_interested := False\<rparr>)
        (user_briefings (fst (mark_user_briefing_interested db i)))
     = map (\<lambda>ub. ub\<lparr>is_interested := False\<rparr>) (user_briefings db)"
    by (simp add: mark_user_briefing_interested_def update_user_briefing_def
        split: option.splits)
  have other: "papers (fst (mark_user_briefing_read now db i)) = papers db"
    "briefings (fst (mark_user_briefing_read now db i)) = briefings db"
    "papers (fst (mark_user_briefing_interested db i)) = papers db"
    "briefings (fst (mark_user_briefing_interested db i)) = briefings db"
    by (simp_all add: mark_user_briefing_read_def mark_user_briefing_interested_def
        update_user_briefing_def split: option.splits)
  from seq rd intr other show ?thesis by blast
qed

text \<open>
  C8. For an id that identifies no UserBriefing row, \<open>mark_user_briefing_sent\<close>,
  \<open>mark_user_briefing_read\<close> and \<open>mark_user_briefing_interested\<close> each return
  \<open>False\<close> as an ordinary result and leave the whole database as it was.
\<close>

theorem unknown_id_fails:
  assumes "i \<notin> set (map ub_id (user_briefings db))"
  shows "mark_user_briefing_sent now db i = (db, False)
       \<and> mark_user_briefing_read now db i = (db, False)
       \<and> mark_user_briefing_interested db i = (db, False)"
proof -
  from assms have "\<forall>ub \<in> set (user_briefings db). ub_id ub \<noteq> i"
    by (simp only: set_map) blast
  then have "first_row (\<lambda>ub. ub_id ub = i) (user_briefings db) = None"
    by (simp only: first_row_none)
  then show ?thesis
    by (simp add: mark_user_briefing_sent_def mark_user_briefing_read_def
        mark_user_briefing_interested_def)
qed

theorem unknown_id_fails_witness:
  "8 \<notin> set (map ub_id (user_briefings example_delivery_db))
   \<and> mark_user_briefing_sent 100 example_delivery_db 8 = (example_delivery_db, False)
   \<and> mark_user_briefing_read 100 example_delivery_db 8 = (example_delivery_db, False)
   \<and> mark_user_briefing_interested example_delivery_db 8 = (example_delivery_db, False)"
proof -
  have h: "8 \<notin> set (map ub_id (user_briefings example_delivery_db))"
    by (simp add: example_delivery_db_def example_user_briefing_def)
  from unknown_id_fails [OF h, of 100] h show ?thesis by (simp only: simp_thms)
qed

lemma upd_twice:
  "map (\<lambda>ub. if ub_id ub = i then ub\<lparr>is_read := True, read_at := Some t2\<rparr> else ub)
     (map (\<lambda>ub. if ub_id ub = i then ub\<lparr>is_read := True, read_at := Some t1\<rparr> else ub) rows)
   = map (\<lambda>ub. if ub_id ub = i then ub\<lparr>is_read := True, read_at := Some t2\<rparr> else ub) rows"
  by (induction rows) simp_all

lemma upd_read_rows:
  "\<forall>ub \<in> set (map (\<lambda>ub. if ub_id ub = i then ub\<lparr>is_read := True, read_at := Some t\<rparr> else ub) rows).
     ub_id ub = i \<longrightarrow> is_read ub \<and> read_at ub = Some t"
proof
  fix r
  assume "r \<in> set (map (\<lambda>ub. if ub_id ub = i then ub\<lparr>is_read := True, read_at := Some t\<rparr> else ub) rows)"
  then obtain ub where r: "r = (if ub_id ub = i then ub\<lparr>is_read := True, read_at := Some t\<rparr> else ub)"
    by (auto simp only: set_map)
  show "ub_id r = i \<longrightarrow> is_read r \<and> read_at r = Some t"
    by (cases "ub_id ub = i") (simp_all add: r)
qed

lemma mark_read_found:
  assumes "\<exists>ub \<in> set (user_briefings db). ub_id ub = i"
  shows "mark_user_briefing_read t db i
      = (db\<lparr>user_briefings :=
           map (\<lambda>ub. if ub_id ub = i then ub\<lparr>is_read := True, read_at := Some t\<rparr> else ub)
             (user_briefings db)\<rparr>, True)"
proof -
  have "first_row (\<lambda>ub. ub_id ub = i) (user_briefings db) \<noteq> None"
    using assms by (simp only: first_row_none) blast
  then obtain r where r: "first_row (\<lambda>ub. ub_id ub = i) (user_briefings db) = Some r"
    by (auto simp only: not_None_eq)
  from first_row_key [OF r] have ri: "ub_id r = i" by (rule conjunct1)
  show ?thesis
    unfolding mark_user_briefing_read_def update_user_briefing_def r by (simp add: ri)
qed

lemma mark_read_keeps_ids:
  "map ub_id (user_briefings (fst (mark_user_briefing_read t db i))) = map ub_id (user_briefings db)"
  by (simp add: mark_user_briefing_read_def update_user_briefing_def split: option.splits)

text \<open>
  C3 as stated fails: \<open>mark_user_briefing_read\<close> assigns \<open>read_at\<close> on every call.
  Row 7 is marked read at time 100 and again at time 200; its \<open>read_at\<close> is 100 after
  the first call and 200 after the second.
\<close>

theorem mark_read_twice_counterexample:
  "map read_at (user_briefings (fst (mark_user_briefing_read 100 example_delivery_db 7)))
     = [Some 100]
   \<and> mark_user_briefing_read 200 (fst (mark_user_briefing_read 100 example_delivery_db 7)) 7
     = (example_delivery_db\<lparr>user_briefings :=
          [example_user_briefing\<lparr>is_read := True, read_at := Some 200\<rparr>]\<rparr>, True)"
  by (simp add: mark_user_briefing_read_def update_user_briefing_def first_row_def
      example_delivery_db_def example_user_briefing_def)

text \<open>
  C3, amended. For an existing UserBriefing id a second \<open>mark_user_briefing_read\<close>
  succeeds, \<open>is_read\<close> stays true, and \<open>read_at\<close> is overwritten with the time of the
  second call. After both calls the database is the original one with \<open>is_read\<close> set
  and \<open>read_at\<close> set to the later time in the rows of that id: every other column of
  those rows, every other row and the other tables are as before the first call. It is
  the database a single call at the later time produces.
\<close>

theorem mark_read_twice:
  assumes "\<exists>ub \<in> set (user_briefings db). ub_id ub = i"
  shows "mark_user_briefing_read now1 db i
           = (db\<lparr>user_briefings :=
                  map (\<lambda>ub. if ub_id ub = i then ub\<lparr>is_read := True, read_at := Some now1\<rparr>
                            else ub) (user_briefings db)\<rparr>, True)
       \<and> mark_user_briefing_read now2 (fst (mark_user_briefing_read now1 db i)) i
           = (db\<lparr>user_briefings :=
                  map (\<lambda>ub. if ub_id ub = i then ub\<lparr>is_read := True, read_at := Some now2\<rparr>
                            else ub) (user_briefings db)\<rparr>, True)
       \<and> mark_user_briefing_read now2 (fst (mark_user_briefing_read now1 db i)) i
           = (fst (mark_user_briefing_read now2 db i), True)
       \<and> (\<forall>ub \<in> set (user_briefings
              (fst (mark_user_briefing_read now2 (fst (mark_user_briefing_read now1 db i)) i))).
            ub_id ub = i \<longrightarrow> is_read ub \<and> read_at ub = Some now2)"
proof -
  define db1 where "db1 = fst (mark_user_briefing_read now1 db i)"
  define db2 where "db2 = db\<lparr>user_briefings :=
      map (\<lambda>ub. if ub_id ub = i then ub\<lparr>is_read := True, read_at := Some now2\<rparr> else ub)
        (user_briefings db)\<rparr>"
  have one: "mark_user_briefing_read now1 db i
           = (db\<lparr>user_briefings :=
                  map (\<lambda>ub. if ub_id ub = i then ub\<lparr>is_read := True, read_at := Some now1\<rparr>
                            else ub) (user_briefings db)\<rparr>, True)"
    by (rule mark_read_found [OF assms])
  have single: "mark_user_briefing_read now2 db i = (db2, True)"
    unfolding db2_def by (rule mark_read_found [OF assms])
  have "i \<in> set (map ub_id (user_briefings db))" using assms by auto
  then have "i \<in> set (map ub_id (user_briefings db1))"
    unfolding db1_def by (simp only: mark_read_keeps_ids)
  then have ex1: "\<exists>ub \<in> set (user_briefings db1). ub_id ub = i" by auto
  have d1: "user_briefings db1 =
      map (\<lambda>ub. if ub_id ub = i then ub\<lparr>is_read := True, read_at := Some now1\<rparr> else ub)
        (user_briefings db)"
    and p1: "papers db1 = papers db" and b1: "briefings db1 = briefings db"
    unfolding db1_def by (simp_all add: one)
  have "mark_user_briefing_read now2 db1 i
      = (db1\<lparr>user_briefings :=
           map (\<lambda>ub. if ub_id ub = i then ub\<lparr>is_read := True, read_at := Some now2\<rparr> else ub)
             (user_briefings db1)\<rparr>, True)"
    by (rule mark_read_found [OF ex1])
  also have "db1\<lparr>user_briefings :=
           map (\<lambda>ub. if ub_id ub = i then ub\<lparr>is_read := True, read_at := Some now2\<rparr> else ub)
             (user_briefings db1)\<rparr> = db2"
    unfolding db2_def d1 upd_twice using p1 b1 by simp
  finally have two: "mark_user_briefing_read now2 db1 i = (db2, True)" .
  from single have fs: "fst (mark_user_briefing_read now2 db i) = db2" by simp
  have rows: "\<forall>ub \<in> set (user_briefings db2). ub_id ub = i \<longrightarrow> is_read ub \<and> read_at ub = Some now2"
  proof -
    have "user_briefings db2 =
      map (\<lambda>ub. if ub_id ub = i then ub\<lparr>is_read := True, read_at := Some now2\<rparr> else ub)
        (user_briefings db)"
      by (simp add: db2_def)
    with upd_read_rows [of i now2 "user_briefings db"] show ?thesis by (simp only:)
  qed
  from two have f2: "fst (mark_user_briefing_read now2 db1 i) = db2" by simp
  have c2: "mark_user_briefing_read now2 db1 i
           = (db\<lparr>user_briefings :=
                  map (\<lambda>ub. if ub_id ub = i then ub\<lparr>is_read := True, read_at := Some now2\<rparr>
                            else ub) (user_briefings db)\<rparr>, True)"
    using two unfolding db2_def .
  have c3: "mark_user_briefing_read now2 db1 i = (fst (mark_user_briefing_read now2 db i), True)"
    unfolding fs by (rule two)
  have c4: "\<forall>ub \<in> set (user_briefings (fst (mark_user_briefing_read now2 db1 i))).
            ub_id ub = i \<longrightarrow> is_read ub \<and> read_at ub = Some now2"
    unfolding f2 by (rule rows)
  from one c2 c3 c4 show ?thesis unfolding db1_def by (intro conjI)
qed

theorem mark_read_twice_witness:
  "(\<exists>ub \<in> set (user_briefings two_row_delivery_db). ub_id ub = 7)
   \<and> mark_user_briefing_read 100 two_row_delivery_db 7
       = (two_row_delivery_db\<lparr>user_briefings :=
            [example_user_briefing\<lparr>is_read := True, read_at := Some 100\<rparr>,
             other_user_briefing]\<rparr>, True)
   \<and> mark_user_briefing_read 200 (fst (mark_user_briefing_read 100 two_row_delivery_db 7)) 7
       = (two_row_delivery_db\<lparr>user_briefings :=
            [example_user_briefing\<lparr>is_read := True, read_at := Some 200\<rparr>,
             other_user_briefing]\<rparr>, True)"
proof -
  have h: "\<exists>ub \<in> set (user_briefings two_row_delivery_db). ub_id ub = 7"
    by (simp add: two_row_delivery_db_def example_user_briefing_def)
  have m: "\<And>t. map (\<lambda>ub. if ub_id ub = 7 then ub\<lparr>is_read := True, read_at := Some t\<rparr> else ub)
        (user_briefings two_row_delivery_db)
      = [example_user_briefing\<lparr>is_read := True, read_at := Some t\<rparr>, other_user_briefing]"
    by (simp add: two_row_delivery_db_def example_user_briefing_def other_user_briefing_def)
  from mark_read_twice [OF h, of 100 200]
  have "mark_user_briefing_read 100 two_row_delivery_db 7
       = (two_row_delivery_db\<lparr>user_briefings :=
            map (\<lambda>ub. if ub_id ub = 7 then ub\<lparr>is_read := True, read_at := Some 100\<rparr> else ub)
              (user_briefings two_row_delivery_db)\<rparr>, True)"
    and "mark_user_briefing_read 200 (fst (mark_user_briefing_read 100 two_row_delivery_db 7)) 7
       = (two_row_delivery_db\<lparr>user_briefings :=
            map (\<lambda>ub. if ub_id ub = 7 then ub\<lparr>is_read := True, read_at := Some 200\<rparr> else ub)
              (user_briefings two_row_delivery_db)\<rparr>, True)"
    by blast+
  with h show ?thesis unfolding m by (intro conjI)
qed

section \<open>Properties of ingestion\<close>

lemma first_row_None_iff: "first_row P rows = None \<longleftrightarrow> (\<forall>r \<in> set rows. \<not> P r)"
  unfolding first_row_def by (auto simp: find_None_iff)

lemma first_row_SomeD: "first_row P rows = Some r \<Longrightarrow> P r \<and> r \<in> set rows"
  unfolding first_row_def by (auto simp: find_Some_iff)

lemma paper_of_metadata_key:
  "external_id (paper_of_metadata now m) = md_external_id m"
  "source (paper_of_metadata now m) = md_source m"
  by (simp_all add: paper_of_metadata_def)

lemma add_paper_rejects:
  "external_id row \<in> set (map external_id (papers db)) \<Longrightarrow> add_paper db row = Inl IntegrityError"
  by (simp add: add_paper_def)

lemma add_paper_accepts:
  "external_id row \<notin> set (map external_id (papers db)) \<Longrightarrow>
   add_paper db row =
     Inr (db\<lparr>papers := papers db @ [row\<lparr>p_id := next_id (map p_id (papers db))\<rparr>]\<rparr>,
          row\<lparr>p_id := next_id (map p_id (papers db))\<rparr>)"
  by (simp add: add_paper_def Let_def)

lemma save_paper_existing:
  assumes "(md_source m, md_external_id m) \<in> set (map (\<lambda>p. (source p, external_id p)) (papers db))"
  shows "save_paper now db m = (db, None)"
proof -
  from assms obtain p where "p \<in> set (papers db)" "source p = md_source m"
    "external_id p = md_external_id m"
    by (auto simp only: set_map)
  then have "first_row (\<lambda>p. external_id p = md_external_id m \<and> source p = md_source m) (papers db)
      \<noteq> None"
    by (simp only: first_row_None_iff) blast
  then obtain e where
    "first_row (\<lambda>p. external_id p = md_external_id m \<and> source p = md_source m) (papers db) = Some e"
    by (auto simp only: not_None_eq)
  then show ?thesis by (simp add: save_paper_def)
qed

lemma save_paper_rejected:
  assumes "md_external_id m \<in> set (map external_id (papers db))"
  shows "save_paper now db m = (db, None)"
proof (cases "first_row (\<lambda>p. external_id p = md_external_id m \<and> source p = md_source m) (papers db)")
  case None
  with add_paper_rejects [of "paper_of_metadata now m" db] assms show ?thesis
    by (simp add: save_paper_def paper_of_metadata_key)
next
  case (Some e)
  then show ?thesis by (simp add: save_paper_def)
qed

lemma save_paper_cases:
  "save_paper now db m = (db, None)
   \<or> (md_external_id m \<notin> set (map external_id (papers db))
      \<and> save_paper now db m =
          (db\<lparr>papers := papers db @ [(paper_of_metadata now m)\<lparr>p_id := next_id (map p_id (papers db))\<rparr>]\<rparr>,
           Some ((paper_of_metadata now m)\<lparr>p_id := next_id (map p_id (papers db))\<rparr>)))"
proof (cases "md_external_id m \<in> set (map external_id (papers db))")
  assume "md_external_id m \<in> set (map external_id (papers db))"
  then show ?thesis by (simp only: save_paper_rejected simp_thms)
next
  assume fresh: "md_external_id m \<notin> set (map external_id (papers db))"
  show ?thesis
  proof (cases "first_row (\<lambda>p. external_id p = md_external_id m \<and> source p = md_source m) (papers db)")
    assume lookup: "first_row (\<lambda>p. external_id p = md_external_id m \<and> source p = md_source m) (papers db) = None"
    from fresh have "external_id (paper_of_metadata now m) \<notin> set (map external_id (papers db))"
      by (simp add: paper_of_metadata_key)
    from add_paper_accepts [OF this] have
      "save_paper now db m =
          (db\<lparr>papers := papers db @ [(paper_of_metadata now m)\<lparr>p_id := next_id (map p_id (papers db))\<rparr>]\<rparr>,
           Some ((paper_of_metadata now m)\<lparr>p_id := next_id (map p_id (papers db))\<rparr>))"
      by (simp add: save_paper_def lookup)
    with fresh show ?thesis by blast
  next
    fix e
    assume "first_row (\<lambda>p. external_id p = md_external_id m \<and> source p = md_source m) (papers db) = Some e"
    then show ?thesis by (simp add: save_paper_def)
  qed
qed

lemma save_fetched_appends:
  "papers (fst (save_fetched_papers db records)) = papers db @ snd (save_fetched_papers db records)
   \<and> briefings (fst (save_fetched_papers db records)) = briefings db
   \<and> user_briefings (fst (save_fetched_papers db records)) = user_briefings db"
proof (induction records arbitrary: db)
  case Nil
  show ?case by simp
next
  case (Cons r records)
  obtain now m where r: "r = (now, m)" by (cases r)
  from save_paper_cases [of now db m] show ?case
  proof
    assume "save_paper now db m = (db, None)"
    with Cons.IH [of db] show ?thesis by (simp add: r)
  next
    let ?p = "(paper_of_metadata now m)\<lparr>p_id := next_id (map p_id (papers db))\<rparr>"
    let ?db = "db\<lparr>papers := papers db @ [?p]\<rparr>"
    assume "md_external_id m \<notin> set (map external_id (papers db))
      \<and> save_paper now db m = (?db, Some ?p)"
    then have sp: "save_paper now db m = (?db, Some ?p)" by (rule conjunct2)
    have s: "save_fetched_papers db (r # records)
        = (fst (save_fetched_papers ?db records), ?p # snd (save_fetched_papers ?db records))"
      by (simp add: r sp case_prod_beta)
    from Cons.IH [of ?db] show ?thesis unfolding s by simp
  qed
qed

lemma save_fetched_fresh:
  "set (map external_id (snd (save_fetched_papers db records))) \<inter> set (map external_id (papers db)) = {}
   \<and> distinct (map external_id (snd (save_fetched_papers db records)))"
proof (induction records arbitrary: db)
  case Nil
  show ?case by simp
next
  case (Cons r records)
  obtain now m where r: "r = (now, m)" by (cases r)
  from save_paper_cases [of now db m] show ?case
  proof
    assume "save_paper now db m = (db, None)"
    with Cons.IH [of db] show ?thesis by (simp add: r)
  next
    let ?p = "(paper_of_metadata now m)\<lparr>p_id := next_id (map p_id (papers db))\<rparr>"
    let ?db = "db\<lparr>papers := papers db @ [?p]\<rparr>"
    assume a: "md_external_id m \<notin> set (map external_id (papers db))
      \<and> save_paper now db m = (?db, Some ?p)"
    have e: "external_id ?p = md_external_id m" by (simp add: paper_of_metadata_key)
    from Cons.IH [of ?db]
    have ih: "set (map external_id (snd (save_fetched_papers ?db records)))
                \<inter> (set (map external_id (papers db)) \<union> {md_external_id m}) = {}"
      and d: "distinct (map external_id (snd (save_fetched_papers ?db records)))"
      by (simp_all add: e)
    from a have sp: "save_paper now db m = (?db, Some ?p)" by (rule conjunct2)
    have s: "snd (save_fetched_papers db (r # records)) = ?p # snd (save_fetched_papers ?db records)"
      by (simp add: r sp case_prod_beta)
    from ih have n: "md_external_id m \<notin> set (map external_id (snd (save_fetched_papers ?db records)))"
      by blast
    from ih have i2: "set (map external_id (snd (save_fetched_papers ?db records)))
                \<inter> set (map external_id (papers db)) = {}" by blast
    from a have a1: "md_external_id m \<notin> set (map external_id (papers db))" by (rule conjunct1)
    show ?thesis unfolding s using n d i2 a1 e by auto
  qed
qed

lemma save_fetched_distinct:
  assumes "distinct (map external_id (papers db))"
  shows "distinct (map external_id (papers (fst (save_fetched_papers db records))))"
proof -
  have "map external_id (papers (fst (save_fetched_papers db records)))
      = map external_id (papers db) @ map external_id (snd (save_fetched_papers db records))"
    by (simp add: save_fetched_appends)
  moreover from save_fetched_fresh [of db records]
  have "set (map external_id (papers db)) \<inter> set (map external_id (snd (save_fetched_papers db records))) = {}"
    and "distinct (map external_id (snd (save_fetched_papers db records)))"
    by blast+
  ultimately show ?thesis using assms by (simp only: distinct_append simp_thms)
qed

lemma lookup_misses_other_source:
  assumes d: "distinct (map external_id (papers db))"
    and p: "p \<in> set (papers db)" and e: "external_id p = md_external_id m"
    and s: "source p \<noteq> md_source m"
  shows "first_row (\<lambda>q. external_id q = md_external_id m \<and> source q = md_source m) (papers db) = None"
proof (rule ccontr)
  assume "first_row (\<lambda>q. external_id q = md_external_id m \<and> source q = md_source m) (papers db) \<noteq> None"
  then obtain q where
    "first_row (\<lambda>q. external_id q = md_external_id m \<and> source q = md_source m) (papers db) = Some q"
    by (auto simp only: not_None_eq)
  from first_row_SomeD [OF this]
  have q: "q \<in> set (papers db)" "external_id q = md_external_id m" "source q = md_source m"
    by blast+
  from d have "inj_on external_id (set (papers db))" by (simp only: distinct_map)
  with p q(1) e q(2) have "p = q" by (simp add: inj_on_def)
  with s q(3) show False by simp
qed

text \<open>
  C2. Ingestion dedup is idempotent. When a stored paper has the record's \<open>source\<close> and
  \<open>external_id\<close>, \<open>_save_paper\<close> returns \<open>None\<close> and the database is the one it
  was given: no row is inserted and no column of a stored row is written. A fetch loop
  over that record alone returns no paper; a fetch loop over any records leaves the stored
  rows as they were (it only appends the papers it returns), and no paper it returns has
  the identity of the record.
\<close>

theorem ingest_existing_noop:
  assumes "(md_source m, md_external_id m)
             \<in> set (map (\<lambda>p. (source p, external_id p)) (papers db))"
  shows "save_paper now db m = (db, None)
       \<and> save_fetched_papers db [(now, m)] = (db, [])
       \<and> papers (fst (save_fetched_papers db records))
           = papers db @ snd (save_fetched_papers db records)
       \<and> (md_source m, md_external_id m)
           \<notin> set (map (\<lambda>p. (source p, external_id p)) (snd (save_fetched_papers db records)))"
proof -
  have one: "save_paper now db m = (db, None)"
    using assms by (rule save_paper_existing)
  then have loop: "save_fetched_papers db [(now, m)] = (db, [])" by simp
  have app: "papers (fst (save_fetched_papers db records))
           = papers db @ snd (save_fetched_papers db records)"
    by (simp add: save_fetched_appends)
  from assms have "md_external_id m \<in> set (map external_id (papers db))"
    by (auto simp only: set_map)
  with save_fetched_fresh [of db records]
  have "md_external_id m \<notin> set (map external_id (snd (save_fetched_papers db records)))"
    by blast
  then have excl: "(md_source m, md_external_id m)
           \<notin> set (map (\<lambda>p. (source p, external_id p)) (snd (save_fetched_papers db records)))"
    by (auto simp only: set_map)
  from one loop app excl show ?thesis by (simp only: simp_thms)
qed

theorem ingest_existing_noop_witness:
  "save_paper 5 empty_database example_metadata = (example_paper_db, Some example_paper)
   \<and> (md_source example_metadata, md_external_id example_metadata)
        \<in> set (map (\<lambda>p. (source p, external_id p)) (papers example_paper_db))
   \<and> save_paper 6 example_paper_db example_metadata = (example_paper_db, None)
   \<and> save_fetched_papers example_paper_db [(6, example_metadata)] = (example_paper_db, [])
   \<and> length (papers (fst (save_paper 6 example_paper_db example_metadata))) = 1"
proof -
  have first: "save_paper 5 empty_database example_metadata = (example_paper_db, Some example_paper)"
    by (simp add: save_paper_def add_paper_def first_row_def empty_database_def
        example_metadata_def paper_of_metadata_def next_id_def ascii_def Let_def
        example_paper_db_def example_paper_def)
  have h: "(md_source example_metadata, md_external_id example_metadata)
        \<in> set (map (\<lambda>p. (source p, external_id p)) (papers example_paper_db))"
    by (simp add: example_metadata_def example_paper_db_def example_paper_def)
  have n: "length (papers example_paper_db) = 1" by (simp add: example_paper_db_def)
  from ingest_existing_noop [OF h, of 6 "[]"] first h n show ?thesis by simp
qed

text \<open>
  C10. The column \<open>external_id\<close> is unique on its own. From a table whose rows have
  pairwise different \<open>external_id\<close> (the empty table is one), every fetch loop leads to
  such a table again. A record whose \<open>external_id\<close> is that of a stored paper of another
  \<open>source\<close> is not found by the lookup on \<open>external_id\<close> and \<open>source\<close>; its insert
  raises on the unique column, and \<open>_save_paper\<close> rolls back and returns \<open>None\<close> with
  the database unchanged.
\<close>

theorem external_id_unique_across_sources:
  assumes "distinct (map external_id (papers db))"
  shows "distinct (map external_id (papers (fst (save_fetched_papers db records))))
       \<and> (\<forall>p \<in> set (papers db).
            external_id p = md_external_id m \<and> source p \<noteq> md_source m \<longrightarrow>
              first_row (\<lambda>q. external_id q = md_external_id m \<and> source q = md_source m)
                (papers db) = None
              \<and> add_paper db (paper_of_metadata now m) = Inl IntegrityError
              \<and> save_paper now db m = (db, None))"
proof -
  have inv: "distinct (map external_id (papers (fst (save_fetched_papers db records))))"
    using assms by (rule save_fetched_distinct)
  have rej: "first_row (\<lambda>q. external_id q = md_external_id m \<and> source q = md_source m)
                (papers db) = None
              \<and> add_paper db (paper_of_metadata now m) = Inl IntegrityError
              \<and> save_paper now db m = (db, None)"
    if p: "p \<in> set (papers db)" and e: "external_id p = md_external_id m"
      and s: "source p \<noteq> md_source m" for p
  proof -
    from p have "external_id p \<in> set (map external_id (papers db))"
      by (simp only: set_map) (rule imageI)
    then have mem: "md_external_id m \<in> set (map external_id (papers db))"
      by (simp only: e)
    have l: "first_row (\<lambda>q. external_id q = md_external_id m \<and> source q = md_source m)
                (papers db) = None"
      using assms p e s by (rule lookup_misses_other_source)
    from mem have a: "add_paper db (paper_of_metadata now m) = Inl IntegrityError"
      by (simp add: add_paper_rejects paper_of_metadata_key)
    from mem have sv: "save_paper now db m = (db, None)" by (rule save_paper_rejected)
    from l a sv show ?thesis by (simp only: simp_thms)
  qed
  from inv rej show ?thesis by blast
qed

theorem external_id_unique_across_sources_witness:
  "distinct (map external_id (papers example_paper_db))
   \<and> example_paper \<in> set (papers example_paper_db)
   \<and> external_id example_paper = md_external_id (example_metadata\<lparr>md_source := ascii ''openreview''\<rparr>)
   \<and> source example_paper \<noteq> md_source (example_metadata\<lparr>md_source := ascii ''openreview''\<rparr>)
   \<and> add_paper example_paper_db
        (paper_of_metadata 6 (example_metadata\<lparr>md_source := ascii ''openreview''\<rparr>))
       = Inl IntegrityError
   \<and> save_paper 6 example_paper_db (example_metadata\<lparr>md_source := ascii ''openreview''\<rparr>)
       = (example_paper_db, None)"
proof -
  have d: "distinct (map external_id (papers example_paper_db))"
    by (simp add: example_paper_db_def)
  have p: "example_paper \<in> set (papers example_paper_db)"
    by (simp add: example_paper_db_def)
  have e: "external_id example_paper = md_external_id (example_metadata\<lparr>md_source := ascii ''openreview''\<rparr>)"
    by (simp add: example_paper_def example_metadata_def)
  have s: "source example_paper \<noteq> md_source (example_metadata\<lparr>md_source := ascii ''openreview''\<rparr>)"
    by (simp add: example_paper_def example_metadata_def ascii_def)
  from external_id_unique_across_sources [OF d, of "[]" "example_metadata\<lparr>md_source := ascii ''openreview''\<rparr>" 6]
  have "\<forall>p \<in> set (papers example_paper_db).
            external_id p = md_external_id (example_metadata\<lparr>md_source := ascii ''openreview''\<rparr>)
            \<and> source p \<noteq> md_source (example_metadata\<lparr>md_source := ascii ''openreview''\<rparr>) \<longrightarrow>
              first_row (\<lambda>q. external_id q = md_external_id (example_metadata\<lparr>md_source := ascii ''openreview''\<rparr>)
                   \<and> source q = md_source (example_metadata\<lparr>md_source := ascii ''openreview''\<rparr>))
                (papers example_paper_db) = None
              \<and> add_paper example_paper_db (paper_of_metadata 6 (example_metadata\<lparr>md_source := ascii ''openreview''\<rparr>)) = Inl IntegrityError
              \<and> save_paper 6 example_paper_db (example_metadata\<lparr>md_source := ascii ''openreview''\<rparr>) = (example_paper_db, None)"
    by (rule conjunct2)
  from bspec [OF this p] e s d p show ?thesis by blast
qed

section \<open>Properties of the briefing text\<close>

lemma template_lengths:
  "length fallback_head = 4" "length fallback_middle = 14" "length fallback_note = 27"
  "length ellipsis = 3" "length prompt_intro = 31" "length prompt_authors = 5"
  "length prompt_after_authors = 1" "length prompt_abstract = 4" "length prompt_format = 20"
  "length prompt_format_authors = 14" "length prompt_rest = 144"
  by (simp_all add: fallback_head_def fallback_middle_def fallback_note_def ellipsis_def
      ascii_def prompt_intro_def prompt_authors_def prompt_after_authors_def
      prompt_abstract_def prompt_format_def prompt_format_authors_def prompt_rest_def)

lemma length_fallback_summary:
  "length (fallback_summary t ab)
     = 45 + length t + min 500 (length ab) + (if length ab > 500 then 3 else 0)"
  by (simp add: fallback_summary_def template_lengths min_def)

lemma length_build_briefing_prompt:
  "length (build_briefing_prompt t a ab v) \<ge> 219 + 2 * length t + 2 * length a + length ab"
  by (simp add: build_briefing_prompt_def template_lengths Let_def split: option.splits)

lemma generate_briefing_no_backend:
  "\<not> truthy (openai_api_key cfg) \<Longrightarrow> \<not> truthy (anthropic_api_key cfg) \<Longrightarrow>
   generate_briefing cfg outcome t a ab v = fallback_summary t ab"
  by (simp add: generate_briefing_def Let_def)

lemma generate_briefing_raised:
  "truthy (openai_api_key cfg) \<or> truthy (anthropic_api_key cfg) \<Longrightarrow>
   generate_briefing cfg Raised t a ab v = fallback_summary (build_briefing_prompt t a ab v) []"
  by (auto simp: generate_briefing_def generate_with_openai_def generate_with_anthropic_def
      Let_def)

lemma raised_content_differs:
  "fallback_summary (build_briefing_prompt t a ab v) [] \<noteq> fallback_summary t ab"
proof
  assume "fallback_summary (build_briefing_prompt t a ab v) [] = fallback_summary t ab"
  then have "length (fallback_summary (build_briefing_prompt t a ab v) [])
      = length (fallback_summary t ab)" by (rule arg_cong)
  with length_build_briefing_prompt [of t a ab v] show False
    by (simp add: length_fallback_summary split: if_splits)
qed

lemma raised_content_embeds_abstract:
  "sublist ab (fallback_summary (build_briefing_prompt t a ab v) [])"
proof -
  obtain venue_info where
    p: "build_briefing_prompt t a ab v =
          (prompt_intro @ t @ prompt_authors @ a @ prompt_after_authors @ venue_info
             @ prompt_abstract) @ ab
           @ (prompt_format @ t @ prompt_format_authors @ a @ prompt_rest)"
    by (simp add: build_briefing_prompt_def Let_def)
  have "fallback_summary (build_briefing_prompt t a ab v) [] =
      (fallback_head @ prompt_intro @ t @ prompt_authors @ a @ prompt_after_authors
         @ venue_info @ prompt_abstract) @ ab
       @ (prompt_format @ t @ prompt_format_authors @ a @ prompt_rest @ fallback_middle
            @ fallback_note)"
    by (simp add: fallback_summary_def p)
  then show ?thesis unfolding sublist_def by blast
qed

text \<open>
  C4 at a failing input. An OpenAI key is configured and the request raises, for a paper
  with title \<open>T\<close>, author \<open>A\<close> and an abstract of 501 characters. The stored text is
  the fallback template around the whole prompt with an empty abstract section: it has
  769 characters and contains all 501 characters of the abstract, where the fallback of
  the title and the abstract has 549 characters (500 of the abstract and the three dots).
\<close>

theorem generation_failure_wraps_prompt:
  "generate_briefing openai_settings Raised (ascii ''T'') (ascii ''A'') (replicate 501 97) None
     = fallback_head
        @ build_briefing_prompt (ascii ''T'') (ascii ''A'') (replicate 501 97) None
        @ fallback_middle @ fallback_note
   \<and> length (generate_briefing openai_settings Raised (ascii ''T'') (ascii ''A'')
               (replicate 501 97) None) = 769
   \<and> sublist (replicate 501 97)
        (generate_briefing openai_settings Raised (ascii ''T'') (ascii ''A'')
           (replicate 501 97) None)
   \<and> length (fallback_summary (ascii ''T'') (replicate 501 97)) = 549
   \<and> fallback_summary (ascii ''T'') (replicate 501 97)
       = fallback_head @ ascii ''T'' @ fallback_middle @ replicate 500 97 @ ellipsis
          @ fallback_note
   \<and> generate_briefing no_backend_settings Raised (ascii ''T'') (ascii ''A'')
        (replicate 501 97) None
       = fallback_summary (ascii ''T'') (replicate 501 97)"
proof -
  have k: "truthy (openai_api_key openai_settings) \<or> truthy (anthropic_api_key openai_settings)"
    by (simp add: openai_settings_def truthy_def ascii_def)
  have g: "generate_briefing openai_settings Raised (ascii ''T'') (ascii ''A'') (replicate 501 97) None
      = fallback_summary (build_briefing_prompt (ascii ''T'') (ascii ''A'') (replicate 501 97) None) []"
    using k by (rule generate_briefing_raised)
  have c1: "generate_briefing openai_settings Raised (ascii ''T'') (ascii ''A'') (replicate 501 97) None
     = fallback_head
        @ build_briefing_prompt (ascii ''T'') (ascii ''A'') (replicate 501 97) None
        @ fallback_middle @ fallback_note"
    unfolding g by (simp add: fallback_summary_def)
  have c2: "length (generate_briefing openai_settings Raised (ascii ''T'') (ascii ''A'')
               (replicate 501 97) None) = 769"
    unfolding g
    by (simp add: fallback_summary_def build_briefing_prompt_def template_lengths ascii_def)
  have c3: "sublist (replicate 501 97)
        (generate_briefing openai_settings Raised (ascii ''T'') (ascii ''A'')
           (replicate 501 97) None)"
    unfolding g by (rule raised_content_embeds_abstract)
  have c4: "length (fallback_summary (ascii ''T'') (replicate 501 97)) = 549"
    by (simp add: length_fallback_summary ascii_def)
  have c5: "fallback_summary (ascii ''T'') (replicate 501 97)
       = fallback_head @ ascii ''T'' @ fallback_middle @ replicate 500 97 @ ellipsis
          @ fallback_note"
    by (simp add: fallback_summary_def)
  have c6: "generate_briefing no_backend_settings Raised (ascii ''T'') (ascii ''A'')
        (replicate 501 97) None
       = fallback_summary (ascii ''T'') (replicate 501 97)"
    by (simp add: generate_briefing_no_backend no_backend_settings_def truthy_def)
  from c1 c2 c3 c4 c5 c6 show ?thesis by (simp only: simp_thms)
qed

section \<open>Properties of the queries\<close>

lemma set_insert_desc: "set (insert_desc key x ys) = insert x (set ys)"
  by (induction ys) auto

lemma length_insert_desc: "length (insert_desc key x ys) = Suc (length ys)"
  by (induction ys) auto

lemma sorted_insert_desc:
  "sorted_wrt (\<lambda>a b. key b \<le> key a) ys \<Longrightarrow> sorted_wrt (\<lambda>a b. key b \<le> key a) (insert_desc key x ys)"
  by (induction ys) (auto simp: set_insert_desc)

lemma filter_insert_desc:
  "sorted_wrt (\<lambda>a b. key b \<le> key a) ys \<Longrightarrow>
   filter (\<lambda>y. key y = k) (insert_desc key x ys)
     = (if key x = k then x # filter (\<lambda>y. key y = k) ys else filter (\<lambda>y. key y = k) ys)"
  by (induction ys) auto

lemma set_order_by_desc: "set (order_by_desc key rows) = set rows"
  unfolding order_by_desc_def by (induction rows) (auto simp: set_insert_desc)

lemma length_order_by_desc: "length (order_by_desc key rows) = length rows"
  unfolding order_by_desc_def by (induction rows) (auto simp: length_insert_desc)

lemma sorted_order_by_desc: "sorted_wrt (\<lambda>a b. key b \<le> key a) (order_by_desc key rows)"
  unfolding order_by_desc_def by (induction rows) (auto simp: sorted_insert_desc)

lemma order_by_desc_stable:
  "filter (\<lambda>y. key y = k) (order_by_desc key rows) = filter (\<lambda>y. key y = k) rows"
proof (induction rows)
  case Nil
  show ?case by (simp add: order_by_desc_def)
next
  case (Cons x rows)
  have "order_by_desc key (x # rows) = insert_desc key x (order_by_desc key rows)"
    by (simp add: order_by_desc_def)
  with Cons show ?case
    by (simp add: filter_insert_desc sorted_order_by_desc)
qed

lemma map_insert_desc:
  "map f (insert_desc (\<lambda>a. key (f a)) x ys) = insert_desc key (f x) (map f ys)"
  by (induction ys) auto

lemma map_order_by_desc:
  "map f (order_by_desc (\<lambda>a. key (f a)) rows) = order_by_desc key (map f rows)"
  unfolding order_by_desc_def by (induction rows) (auto simp: map_insert_desc)

lemma map_limit_rows: "map f (limit_rows n rows) = limit_rows n (map f rows)"
  by (simp add: limit_rows_def take_map)

lemma set_limit_rows: "set (limit_rows n rows) \<subseteq> set rows"
  by (auto simp: limit_rows_def dest: in_set_takeD)

lemma length_limit_rows: "0 \<le> n \<Longrightarrow> length (limit_rows n rows) = min (length rows) (nat n)"
  by (simp add: limit_rows_def min_def)

lemma sorted_limit_rows:
  "sorted_wrt R rows \<Longrightarrow> sorted_wrt R (limit_rows n rows)"
  by (simp add: limit_rows_def sorted_wrt_take)

lemma outerjoin_unbriefed:
  "map fst (filter (\<lambda>(p, b). b = None \<and> Q p) (outerjoin_briefing ps bs))
     = filter (\<lambda>p. (\<forall>b \<in> set bs. b_paper_id b \<noteq> p_id p) \<and> Q p) ps"
proof (induction ps)
  case Nil
  show ?case by (simp add: outerjoin_briefing_def)
next
  case (Cons p ps)
  have step: "outerjoin_briefing (p # ps) bs
      = (case filter (\<lambda>b. b_paper_id b = p_id p) bs of
           [] \<Rightarrow> [(p, None)]
         | ms \<Rightarrow> map (\<lambda>b. (p, Some b)) ms) @ outerjoin_briefing ps bs"
    by (simp add: outerjoin_briefing_def)
  show ?case
  proof (cases "filter (\<lambda>b. b_paper_id b = p_id p) bs")
    case Nil
    then have "\<forall>b \<in> set bs. b_paper_id b \<noteq> p_id p"
      by (simp add: filter_empty_conv)
    with Nil Cons.IH show ?thesis by (simp add: step)
  next
    case (Cons m ms)
    then have "m \<in> set (filter (\<lambda>b. b_paper_id b = p_id p) bs)" by simp
    then have "\<not> (\<forall>b \<in> set bs. b_paper_id b \<noteq> p_id p)" by auto
    moreover have "filter (\<lambda>(p, b). b = None \<and> Q p) (map (\<lambda>b. (p, Some b)) (m # ms)) = []"
      by (simp add: filter_empty_conv)
    ultimately show ?thesis using Cons Cons.IH by (simp add: step)
  qed
qed

lemma case_prod_fst: "(\<lambda>(p, b). f p) = (\<lambda>a. f (fst a))"
  by (simp add: fun_eq_iff)

lemma pending_rows_sorted:
  "sorted_wrt (\<lambda>a b. publish_date b \<le> publish_date a)
     (map fst (limit_rows n (order_by_desc (\<lambda>(p, b). publish_date p) rows)))"
proof -
  have "sorted_wrt (\<lambda>a b. publish_date b \<le> publish_date a)
      (limit_rows n (order_by_desc publish_date (map fst rows)))"
    by (intro sorted_limit_rows sorted_order_by_desc)
  then show ?thesis
    by (simp add: case_prod_fst map_limit_rows map_order_by_desc)
qed

lemma pending_rows_subset:
  assumes "set (scan rows) = set rows"
  shows "set (map fst (limit_rows n (order_by_desc key (scan rows)))) \<subseteq> fst ` set rows"
proof -
  have "set (limit_rows n (order_by_desc key (scan rows))) \<subseteq> set rows"
    using set_limit_rows [of n "order_by_desc key (scan rows)"] assms
    by (simp add: set_order_by_desc)
  then show ?thesis by auto
qed

lemma set_filter_by_keywords: "set (filter_by_keywords ilike kws f query) \<subseteq> set query"
  by (auto simp: filter_by_keywords_def)

lemma outerjoin_None_iff:
  "(p, None) \<in> set (outerjoin_briefing ps bs)
     \<longleftrightarrow> p \<in> set ps \<and> (\<forall>b \<in> set bs. b_paper_id b \<noteq> p_id p)"
proof -
  have "(p, None) \<in> set (outerjoin_briefing ps bs)
      \<longleftrightarrow> p \<in> set (map fst (filter (\<lambda>(p, b). b = None \<and> True) (outerjoin_briefing ps bs)))"
    by force
  also have "\<dots> \<longleftrightarrow> p \<in> set ps \<and> (\<forall>b \<in> set bs. b_paper_id b \<noteq> p_id p)"
    by (simp only: outerjoin_unbriefed) auto
  finally show ?thesis .
qed

lemma pending_query_sound:
  assumes "(p, b) \<in> set (filter (\<lambda>(p, b). b = None \<and> Q p) (outerjoin_briefing ps bs))"
  shows "p \<in> set ps \<and> (\<forall>b \<in> set bs. b_paper_id b \<noteq> p_id p) \<and> Q p"
proof -
  from assms have "b = None" "Q p" "(p, b) \<in> set (outerjoin_briefing ps bs)" by auto
  then show ?thesis by (simp add: outerjoin_None_iff)
qed

lemma papers_for_briefing_sorted:
  "sorted_wrt (\<lambda>a b. publish_date b \<le> publish_date a)
     (get_papers_for_briefing ilike scan db max_rows since rfs)"
proof -
  have s2: "\<And>n rows. sorted_wrt (\<lambda>a b. publish_date b \<le> publish_date a)
      (map fst (limit_rows n (order_by_desc (\<lambda>(p, b). publish_date p) rows)))"
    by (rule pending_rows_sorted)
  have s1: "\<And>rows. sorted_wrt (\<lambda>a b. publish_date b \<le> publish_date a)
      (map fst (order_by_desc (\<lambda>(p, b). publish_date p) rows))"
    using s2 [of "- 1"] by (simp add: limit_rows_def)
  show ?thesis
    unfolding get_papers_for_briefing_def Let_def
    by (cases max_rows) (simp_all add: s1 s2)
qed

lemma mset_insert_desc: "mset (insert_desc key x ys) = add_mset x (mset ys)"
  by (induction ys) auto

lemma mset_order_by_desc: "mset (order_by_desc key rows) = mset rows"
  unfolding order_by_desc_def by (induction rows) (auto simp: mset_insert_desc)

lemma outerjoin_unbriefed_rows:
  "filter (\<lambda>(p, b). b = None \<and> Q p) (outerjoin_briefing ps bs)
     = map (\<lambda>p. (p, None)) (filter (\<lambda>p. (\<forall>b \<in> set bs. b_paper_id b \<noteq> p_id p) \<and> Q p) ps)"
proof (induction ps)
  case Nil
  show ?case by (simp add: outerjoin_briefing_def)
next
  case (Cons p ps)
  have step: "outerjoin_briefing (p # ps) bs
      = (case filter (\<lambda>b. b_paper_id b = p_id p) bs of
           [] \<Rightarrow> [(p, None)]
         | ms \<Rightarrow> map (\<lambda>b. (p, Some b)) ms) @ outerjoin_briefing ps bs"
    by (simp add: outerjoin_briefing_def)
  show ?case
  proof (cases "filter (\<lambda>b. b_paper_id b = p_id p) bs")
    case Nil
    then have "\<forall>b \<in> set bs. b_paper_id b \<noteq> p_id p"
      by (simp add: filter_empty_conv)
    with Nil Cons.IH show ?thesis by (simp add: step)
  next
    case (Cons m ms)
    then have "m \<in> set (filter (\<lambda>b. b_paper_id b = p_id p) bs)" by simp
    then have "\<not> (\<forall>b \<in> set bs. b_paper_id b \<noteq> p_id p)" by auto
    moreover have "filter (\<lambda>(p, b). b = None \<and> Q p) (map (\<lambda>b. (p, Some b)) (m # ms)) = []"
      by (simp add: filter_empty_conv)
    ultimately show ?thesis using Cons Cons.IH by (simp add: step)
  qed
qed

lemma filter_by_keywords_rows:
  "filter_by_keywords ilike ks fst (map (\<lambda>p. (p, None)) xs)
     = map (\<lambda>p. (p, None)) (filter (\<lambda>p. ks = [] \<or> keyword_conditions ilike ks p) xs)"
  by (simp add: filter_by_keywords_def filter_map comp_def)

lemma prefix_limit_rows: "prefix (limit_rows n rows) rows"
  by (simp add: limit_rows_def take_is_prefix)

lemma cut_keeps_newest:
  assumes s: "sorted_wrt (\<lambda>a b. key b \<le> key a) xs"
    and p: "p \<in> set (limit_rows n xs)" and q: "q \<in> set xs" and nq: "q \<notin> set (limit_rows n xs)"
  shows "key q \<le> key p"
proof (cases "n < 0")
  case True
  with q nq show ?thesis by (simp add: limit_rows_def)
next
  case False
  then have l: "limit_rows n xs = take (nat n) xs" by (simp add: limit_rows_def)
  have "xs = take (nat n) xs @ drop (nat n) xs" by simp
  with q have "q \<in> set (take (nat n) xs) \<union> set (drop (nat n) xs)"
    by (metis set_append)
  with nq l have qd: "q \<in> set (drop (nat n) xs)" by simp
  from s have "sorted_wrt (\<lambda>a b. key b \<le> key a) (take (nat n) xs @ drop (nat n) xs)" by simp
  then have "\<forall>a \<in> set (take (nat n) xs). \<forall>b \<in> set (drop (nat n) xs). key b \<le> key a"
    by (simp only: sorted_wrt_append) blast
  with p l qd show ?thesis by simp
qed

lemma limit_rows_all:
  "n < 0 \<or> length rows \<le> nat n \<Longrightarrow> limit_rows n rows = rows"
  by (auto simp: limit_rows_def)

lemma ties_in_scan_order:
  "prefix (filter (\<lambda>p. key p = d) (limit_rows n (order_by_desc key rows)))
     (filter (\<lambda>p. key p = d) rows)"
proof -
  have "prefix (filter (\<lambda>p. key p = d) (limit_rows n (order_by_desc key rows)))
      (filter (\<lambda>p. key p = d) (order_by_desc key rows))"
    by (intro filter_mono_prefix prefix_limit_rows)
  then show ?thesis by (simp only: order_by_desc_stable)
qed

lemma pending_papers_eq:
  "get_pending_papers ilike scan now db limit rfs
     = limit_rows limit (order_by_desc publish_date (map fst (scan (map (\<lambda>p. (p, None))
         (filter (\<lambda>p. (\<forall>b \<in> set (briefings db). b_paper_id b \<noteq> p_id p)
                    \<and> (case publish_date p of Some d \<Rightarrow> now - seven_days \<le> d | None \<Rightarrow> False)
                    \<and> ((case rfs of Some fs \<Rightarrow> concat (map get_keywords_list fs) | None \<Rightarrow> []) = []
                       \<or> keyword_conditions ilike
                            (case rfs of Some fs \<Rightarrow> concat (map get_keywords_list fs) | None \<Rightarrow> []) p))
            (papers db))))))"
proof -
  define K where "K = (case rfs of Some fs \<Rightarrow> concat (map get_keywords_list fs) | None \<Rightarrow> [])"
  define W where "W = (\<lambda>p::paper. case publish_date p of Some d \<Rightarrow> now - seven_days \<le> d | None \<Rightarrow> False)"
  define NB where "NB = (\<lambda>p::paper. \<forall>b \<in> set (briefings db). b_paper_id b \<noteq> p_id p)"
  define q0 where "q0 = filter (\<lambda>(p, b). b = None \<and> W p)
                    (outerjoin_briefing (papers db) (briefings db))"
  define q1 where "q1 = (case rfs of
                     Some fs \<Rightarrow>
                       if fs \<noteq> []
                       then filter_by_keywords ilike (concat (map get_keywords_list fs)) fst q0
                       else q0
                   | None \<Rightarrow> q0)"
  have r: "get_pending_papers ilike scan now db limit rfs
      = map fst (limit_rows limit (order_by_desc (\<lambda>(p, b). publish_date p) (scan q1)))"
    unfolding get_pending_papers_def Let_def q0_def q1_def W_def ..
  have q0': "q0 = map (\<lambda>p. (p, None)) (filter (\<lambda>p. NB p \<and> W p) (papers db))"
    unfolding q0_def NB_def by (rule outerjoin_unbriefed_rows)
  have "q1 = filter_by_keywords ilike K fst q0"
    by (cases rfs) (simp_all add: q1_def K_def filter_by_keywords_def)
  also have "\<dots> = map (\<lambda>p. (p, None))
      (filter (\<lambda>p. K = [] \<or> keyword_conditions ilike K p) (filter (\<lambda>p. NB p \<and> W p) (papers db)))"
    unfolding q0' by (rule filter_by_keywords_rows)
  also have "filter (\<lambda>p. K = [] \<or> keyword_conditions ilike K p) (filter (\<lambda>p. NB p \<and> W p) (papers db))
      = filter (\<lambda>p. NB p \<and> W p \<and> (K = [] \<or> keyword_conditions ilike K p)) (papers db)"
    by (simp add: conj_ac)
  finally have q1': "q1 = map (\<lambda>p. (p, None))
      (filter (\<lambda>p. NB p \<and> W p \<and> (K = [] \<or> keyword_conditions ilike K p)) (papers db))" .
  have "get_pending_papers ilike scan now db limit rfs
      = limit_rows limit (order_by_desc publish_date (map fst (scan q1)))"
    unfolding r by (simp add: case_prod_fst map_limit_rows map_order_by_desc)
  then show ?thesis unfolding q1' NB_def W_def K_def .
qed

lemma pending_papers_sound:
  assumes "\<forall>rows. mset (scan rows) = mset rows"
  shows "(\<forall>p \<in> set (get_pending_papers ilike scan now db limit rfs).
            p \<in> set (papers db) \<and> (\<forall>b \<in> set (briefings db). b_paper_id b \<noteq> p_id p)
            \<and> (\<exists>d. publish_date p = Some d \<and> now - seven_days \<le> d))
       \<and> sorted_wrt (\<lambda>a b. publish_date b \<le> publish_date a)
           (get_pending_papers ilike scan now db limit rfs)
       \<and> (0 \<le> limit \<longrightarrow> length (get_pending_papers ilike scan now db limit rfs) \<le> nat limit)
       \<and> sorted_wrt (\<lambda>a b. publish_date b \<le> publish_date a)
           (get_papers_for_briefing ilike scan db max_rows since rfs)"
proof -
  define q0 where "q0 = filter (\<lambda>(p, b). b = None
                            \<and> (case publish_date p of Some d \<Rightarrow> now - seven_days \<le> d | None \<Rightarrow> False))
                    (outerjoin_briefing (papers db) (briefings db))"
  define q1 where "q1 = (case rfs of
                     Some fs \<Rightarrow>
                       if fs \<noteq> []
                       then filter_by_keywords ilike (concat (map get_keywords_list fs)) fst q0
                       else q0
                   | None \<Rightarrow> q0)"
  have r: "get_pending_papers ilike scan now db limit rfs
      = map fst (limit_rows limit (order_by_desc (\<lambda>(p, b). publish_date p) (scan q1)))"
    unfolding get_pending_papers_def Let_def q0_def q1_def ..
  have sub: "set q1 \<subseteq> set q0"
    using set_filter_by_keywords [of ilike _ fst q0]
    by (auto simp: q1_def split: option.splits)
  from assms have sc: "set (scan q1) = set q1" by (metis mset_eq_setD)
  have a: "\<forall>p \<in> set (get_pending_papers ilike scan now db limit rfs).
            p \<in> set (papers db) \<and> (\<forall>b \<in> set (briefings db). b_paper_id b \<noteq> p_id p)
            \<and> (\<exists>d. publish_date p = Some d \<and> now - seven_days \<le> d)"
  proof
    fix p
    assume "p \<in> set (get_pending_papers ilike scan now db limit rfs)"
    with pending_rows_subset [of scan q1 limit "\<lambda>(p, b). publish_date p", OF sc]
    have "p \<in> fst ` set q1" unfolding r by blast
    then obtain b where "(p, b) \<in> set q1" by auto
    with sub have "(p, b) \<in> set q0" by blast
    from pending_query_sound [OF this [unfolded q0_def]]
    have "p \<in> set (papers db)" "\<forall>b \<in> set (briefings db). b_paper_id b \<noteq> p_id p"
      "case publish_date p of Some d \<Rightarrow> now - seven_days \<le> d | None \<Rightarrow> False"
      by blast+
    then show "p \<in> set (papers db) \<and> (\<forall>b \<in> set (briefings db). b_paper_id b \<noteq> p_id p)
            \<and> (\<exists>d. publish_date p = Some d \<and> now - seven_days \<le> d)"
      by (cases "publish_date p") simp_all
  qed
  have b: "sorted_wrt (\<lambda>a b. publish_date b \<le> publish_date a)
           (get_pending_papers ilike scan now db limit rfs)"
    unfolding r by (rule pending_rows_sorted)
  have c: "0 \<le> limit \<longrightarrow> length (get_pending_papers ilike scan now db limit rfs) \<le> nat limit"
    unfolding r by (simp add: length_limit_rows)
  have d: "sorted_wrt (\<lambda>a b. publish_date b \<le> publish_date a)
           (get_papers_for_briefing ilike scan db max_rows since rfs)"
    by (rule papers_for_briefing_sorted)
  from a b c d show ?thesis by (simp only: simp_thms)
qed

lemma papers_for_briefing_eq:
  "get_papers_for_briefing ilike scan db max_rows since rfs
     = (case max_rows of
          Some n \<Rightarrow>
            if n \<noteq> 0
            then limit_rows n (order_by_desc publish_date (map fst (scan (map (\<lambda>p. (p, None))
              (filter (\<lambda>p. (\<forall>b \<in> set (briefings db). b_paper_id b \<noteq> p_id p)
                    \<and> (case since of
                         Some s \<Rightarrow> (case publish_date p of Some d \<Rightarrow> s \<le> d | None \<Rightarrow> False)
                       | None \<Rightarrow> True)
                    \<and> ((case rfs of Some fs \<Rightarrow> concat (map get_keywords_list fs) | None \<Rightarrow> []) = []
                       \<or> keyword_conditions ilike
                            (case rfs of Some fs \<Rightarrow> concat (map get_keywords_list fs) | None \<Rightarrow> []) p))
                 (papers db))))))
            else order_by_desc publish_date (map fst (scan (map (\<lambda>p. (p, None))
              (filter (\<lambda>p. (\<forall>b \<in> set (briefings db). b_paper_id b \<noteq> p_id p)
                    \<and> (case since of
                         Some s \<Rightarrow> (case publish_date p of Some d \<Rightarrow> s \<le> d | None \<Rightarrow> False)
                       | None \<Rightarrow> True)
                    \<and> ((case rfs of Some fs \<Rightarrow> concat (map get_keywords_list fs) | None \<Rightarrow> []) = []
                       \<or> keyword_conditions ilike
                            (case rfs of Some fs \<Rightarrow> concat (map get_keywords_list fs) | None \<Rightarrow> []) p))
                 (papers db)))))
        | None \<Rightarrow>
            order_by_desc publish_date (map fst (scan (map (\<lambda>p. (p, None))
              (filter (\<lambda>p. (\<forall>b \<in> set (briefings db). b_paper_id b \<noteq> p_id p)
                    \<and> (case since of
                         Some s \<Rightarrow> (case publish_date p of Some d \<Rightarrow> s \<le> d | None \<Rightarrow> False)
                       | None \<Rightarrow> True)
                    \<and> ((case rfs of Some fs \<Rightarrow> concat (map get_keywords_list fs) | None \<Rightarrow> []) = []
                       \<or> keyword_conditions ilike
                            (case rfs of Some fs \<Rightarrow> concat (map get_keywords_list fs) | None \<Rightarrow> []) p))
                 (papers db))))))"
proof -
  define K where "K = (case rfs of Some fs \<Rightarrow> concat (map get_keywords_list fs) | None \<Rightarrow> [])"
  define W where "W = (\<lambda>p::paper. case since of
                         Some s \<Rightarrow> (case publish_date p of Some d \<Rightarrow> s \<le> d | None \<Rightarrow> False)
                       | None \<Rightarrow> True)"
  define NB where "NB = (\<lambda>p::paper. \<forall>b \<in> set (briefings db). b_paper_id b \<noteq> p_id p)"
  define q0 where "q0 = filter (\<lambda>(p, b). b = None) (outerjoin_briefing (papers db) (briefings db))"
  define q1 where "q1 = (case since of
                     Some s \<Rightarrow> filter (\<lambda>(p, b). case publish_date p of Some d \<Rightarrow> s \<le> d
                                                                  | None \<Rightarrow> False) q0
                   | None \<Rightarrow> q0)"
  define q2 where "q2 = (case rfs of
                     Some fs \<Rightarrow>
                       if fs \<noteq> []
                       then filter_by_keywords ilike (concat (map get_keywords_list fs)) fst q1
                       else q1
                   | None \<Rightarrow> q1)"
  define q3 where "q3 = order_by_desc (\<lambda>(p, b). publish_date p) (scan q2)"
  have r: "get_papers_for_briefing ilike scan db max_rows since rfs
      = map fst (case max_rows of
                     Some n \<Rightarrow> if n \<noteq> 0 then limit_rows n q3 else q3
                   | None \<Rightarrow> q3)"
    unfolding get_papers_for_briefing_def Let_def q0_def q1_def q2_def q3_def ..
  have "q0 = filter (\<lambda>(p, b). b = None \<and> True) (outerjoin_briefing (papers db) (briefings db))"
    by (simp add: q0_def)
  also have "\<dots> = map (\<lambda>p. (p, None)) (filter (\<lambda>p. NB p \<and> True) (papers db))"
    unfolding NB_def by (rule outerjoin_unbriefed_rows)
  finally have q0': "q0 = map (\<lambda>p. (p, None)) (filter NB (papers db))" by simp
  have q1': "q1 = map (\<lambda>p. (p, None)) (filter (\<lambda>p. NB p \<and> W p) (papers db))"
    by (cases since) (simp_all add: q1_def q0' W_def filter_map comp_def conj_ac)
  have "q2 = filter_by_keywords ilike K fst q1"
    by (cases rfs) (simp_all add: q2_def K_def filter_by_keywords_def)
  also have "\<dots> = map (\<lambda>p. (p, None))
      (filter (\<lambda>p. K = [] \<or> keyword_conditions ilike K p) (filter (\<lambda>p. NB p \<and> W p) (papers db)))"
    unfolding q1' by (rule filter_by_keywords_rows)
  also have "filter (\<lambda>p. K = [] \<or> keyword_conditions ilike K p) (filter (\<lambda>p. NB p \<and> W p) (papers db))
      = filter (\<lambda>p. NB p \<and> W p \<and> (K = [] \<or> keyword_conditions ilike K p)) (papers db)"
    by (simp add: conj_ac)
  finally have q2': "q2 = map (\<lambda>p. (p, None))
      (filter (\<lambda>p. NB p \<and> W p \<and> (K = [] \<or> keyword_conditions ilike K p)) (papers db))" .
  have m3: "map fst q3 = order_by_desc publish_date (map fst (scan q2))"
    by (simp add: q3_def case_prod_fst map_order_by_desc)
  have "get_papers_for_briefing ilike scan db max_rows since rfs
      = (case max_rows of
           Some n \<Rightarrow> if n \<noteq> 0 then limit_rows n (order_by_desc publish_date (map fst (scan q2)))
                     else order_by_desc publish_date (map fst (scan q2))
         | None \<Rightarrow> order_by_desc publish_date (map fst (scan q2)))"
    unfolding r by (cases max_rows) (simp_all add: map_limit_rows m3)
  then show ?thesis unfolding q2' NB_def W_def K_def .
qed

lemma yielded_permutes:
  fixes scan :: "('a \<times> 'b option) list \<Rightarrow> ('a \<times> 'b option) list"
  assumes "\<forall>rows. mset (scan rows) = mset rows"
  shows "mset (map fst (scan (map (\<lambda>p. (p, None)) xs))) = mset xs"
proof -
  let ?g = "\<lambda>p :: 'a. (p, None :: 'b option)"
  have s: "mset (scan (map ?g xs)) = mset (map ?g xs)"
    using assms by (rule spec)
  have "mset (map fst (scan (map ?g xs))) = image_mset fst (mset (scan (map ?g xs)))"
    by (rule mset_map)
  also have "\<dots> = image_mset fst (mset (map ?g xs))"
    by (simp only: s)
  also have "\<dots> = mset xs"
    by (simp add: multiset.map_comp comp_def)
  finally show ?thesis .
qed

text \<open>
  C9 as stated fails. Two records with the same publish date are ingested into the empty
  database and get the ids 1 and 2. With an engine that yields the selected rows in
  descending table order, \<open>_get_pending_papers\<close> returns paper 2 before paper 1: the
  query orders by \<open>publish_date\<close> only.
\<close>

theorem pending_papers_tie_counterexample:
  "map (\<lambda>p. (p_id p, publish_date p)) (papers two_papers_db) = [(1, Some 1000), (2, Some 1000)]
   \<and> map (\<lambda>p. (p_id p, publish_date p))
        (get_pending_papers (\<lambda>v pat. True) rev 3000 two_papers_db 10 None)
       = [(2, Some 1000), (1, Some 1000)]"
  by (simp add: get_pending_papers_def outerjoin_briefing_def order_by_desc_def limit_rows_def
      seven_days_def two_papers_db_def save_paper_def add_paper_def first_row_def
      empty_database_def example_metadata_def second_metadata_def paper_of_metadata_def
      next_id_def ascii_def Let_def)

text \<open>
  C9, amended. \<open>_get_pending_papers\<close> selects from the eligible papers: the papers of
  the table that lack a briefing, were published at or after seven days before the call,
  and pass the keyword filter of the given research fields. It returns the first
  \<open>limit\<close> of them in the order newest-first by publish date: all of them when the
  limit allows, otherwise \<open>limit\<close> papers none of which is older than an eligible paper
  left out. Nothing in the query orders papers with equal publish dates: they come in the
  order in which the engine yields them (\<open>yielded\<close>), not by paper id.
  \<open>get_papers_for_briefing\<close> is the same selection with an optional start date and an
  optional limit.
\<close>

theorem pending_papers_selection:
  assumes "\<forall>rows. mset (scan rows) = mset rows"
    and "all_keywords = (case rfs of Some fs \<Rightarrow> concat (map get_keywords_list fs) | None \<Rightarrow> [])"
    and "eligible =
           filter (\<lambda>p. (\<forall>b \<in> set (briefings db). b_paper_id b \<noteq> p_id p)
                    \<and> (case publish_date p of Some d \<Rightarrow> now - seven_days \<le> d | None \<Rightarrow> False)
                    \<and> (all_keywords = [] \<or> keyword_conditions ilike all_keywords p))
             (papers db)"
    and "yielded = map fst (scan (map (\<lambda>p. (p, None)) eligible))"
    and "eligible_since =
           filter (\<lambda>p. (\<forall>b \<in> set (briefings db). b_paper_id b \<noteq> p_id p)
                    \<and> (case since of
                         Some s \<Rightarrow> (case publish_date p of Some d \<Rightarrow> s \<le> d | None \<Rightarrow> False)
                       | None \<Rightarrow> True)
                    \<and> (all_keywords = [] \<or> keyword_conditions ilike all_keywords p))
             (papers db)"
    and "yielded_since = map fst (scan (map (\<lambda>p. (p, None)) eligible_since))"
  shows "(\<forall>p \<in> set (get_pending_papers ilike scan now db limit rfs).
            p \<in> set (papers db) \<and> (\<forall>b \<in> set (briefings db). b_paper_id b \<noteq> p_id p)
            \<and> (\<exists>d. publish_date p = Some d \<and> now - seven_days \<le> d))
       \<and> sorted_wrt (\<lambda>a b. publish_date b \<le> publish_date a)
           (get_pending_papers ilike scan now db limit rfs)
       \<and> (0 \<le> limit \<longrightarrow> length (get_pending_papers ilike scan now db limit rfs) \<le> nat limit)
       \<and> sorted_wrt (\<lambda>a b. publish_date b \<le> publish_date a)
           (get_papers_for_briefing ilike scan db max_rows since rfs)
       \<and> get_pending_papers ilike scan now db limit rfs
           = limit_rows limit (order_by_desc publish_date yielded)
       \<and> mset yielded = mset eligible
       \<and> (0 \<le> limit \<longrightarrow>
            length (get_pending_papers ilike scan now db limit rfs)
              = min (length eligible) (nat limit))
       \<and> (limit < 0 \<or> length eligible \<le> nat limit \<longrightarrow>
            mset (get_pending_papers ilike scan now db limit rfs) = mset eligible)
       \<and> (\<forall>p \<in> set (get_pending_papers ilike scan now db limit rfs).
            \<forall>q \<in> set eligible.
              q \<notin> set (get_pending_papers ilike scan now db limit rfs) \<longrightarrow>
              publish_date q \<le> publish_date p)
       \<and> (\<forall>d. prefix
                 (filter (\<lambda>p. publish_date p = d) (get_pending_papers ilike scan now db limit rfs))
                 (filter (\<lambda>p. publish_date p = d) yielded))
       \<and> get_papers_for_briefing ilike scan db max_rows since rfs
           = (case max_rows of
                Some n \<Rightarrow> if n \<noteq> 0 then limit_rows n (order_by_desc publish_date yielded_since)
                          else order_by_desc publish_date yielded_since
              | None \<Rightarrow> order_by_desc publish_date yielded_since)
       \<and> mset yielded_since = mset eligible_since"
proof -
  let ?R = "get_pending_papers ilike scan now db limit rfs"
  let ?full = "order_by_desc publish_date yielded"
  note old = pending_papers_sound [OF assms(1), of ilike now db limit rfs max_rows since]
  have eq: "?R = limit_rows limit ?full"
    unfolding assms(4) assms(3) assms(2) by (rule pending_papers_eq)
  have ms: "mset yielded = mset eligible"
    unfolding assms(4) using assms(1) by (rule yielded_permutes)
  then have len: "length yielded = length eligible" by (rule mset_eq_length)
  have mfull: "mset ?full = mset eligible" by (simp add: mset_order_by_desc ms)
  have c7: "0 \<le> limit \<longrightarrow> length ?R = min (length eligible) (nat limit)"
    unfolding eq by (simp add: length_limit_rows length_order_by_desc len)
  have c8: "limit < 0 \<or> length eligible \<le> nat limit \<longrightarrow> mset ?R = mset eligible"
  proof
    assume "limit < 0 \<or> length eligible \<le> nat limit"
    then have "limit < 0 \<or> length ?full \<le> nat limit"
      by (simp add: length_order_by_desc len)
    then have "limit_rows limit ?full = ?full" by (rule limit_rows_all)
    with mfull show "mset ?R = mset eligible" unfolding eq by simp
  qed
  have c9: "\<forall>p \<in> set ?R. \<forall>q \<in> set eligible. q \<notin> set ?R \<longrightarrow> publish_date q \<le> publish_date p"
  proof (intro ballI impI)
    fix p q
    assume p: "p \<in> set ?R" and q: "q \<in> set eligible" and nq: "q \<notin> set ?R"
    from mfull have "set ?full = set eligible" by (rule mset_eq_setD)
    with q have q': "q \<in> set ?full" by simp
    have s: "sorted_wrt (\<lambda>a b. publish_date b \<le> publish_date a) ?full"
      by (rule sorted_order_by_desc)
    from s p [unfolded eq] q' nq [unfolded eq] show "publish_date q \<le> publish_date p"
      by (rule cut_keeps_newest)
  qed
  have c10: "\<forall>d. prefix (filter (\<lambda>p. publish_date p = d) ?R)
                 (filter (\<lambda>p. publish_date p = d) yielded)"
    unfolding eq by (intro allI ties_in_scan_order)
  have c11: "get_papers_for_briefing ilike scan db max_rows since rfs
           = (case max_rows of
                Some n \<Rightarrow> if n \<noteq> 0 then limit_rows n (order_by_desc publish_date yielded_since)
                          else order_by_desc publish_date yielded_since
              | None \<Rightarrow> order_by_desc publish_date yielded_since)"
    unfolding assms(6) assms(5) assms(2) by (rule papers_for_briefing_eq)
  have c12: "mset yielded_since = mset eligible_since"
    unfolding assms(6) using assms(1) by (rule yielded_permutes)
  note o1 = old [THEN conjunct1]
    and o2 = old [THEN conjunct2, THEN conjunct1]
    and o3 = old [THEN conjunct2, THEN conjunct2, THEN conjunct1]
    and o4 = old [THEN conjunct2, THEN conjunct2, THEN conjunct2]
  show ?thesis
    by (intro conjI) (rule o1 o2 o3 o4 eq ms c7 c8 c9 c10 c11 c12)+
qed

theorem pending_papers_selection_witness:
  "(\<forall>rows :: (paper \<times> briefing option) list. mset (rev rows) = mset rows)
   \<and> get_keywords_list selection_field = [ascii ''transformer'', ascii ''attention'']
   \<and> filter (\<lambda>p. (\<forall>b \<in> set (briefings selection_db). b_paper_id b \<noteq> p_id p)
                \<and> (case publish_date p of Some d \<Rightarrow> selection_now - seven_days \<le> d
                    | None \<Rightarrow> False)
                \<and> (get_keywords_list selection_field = []
                    \<or> keyword_conditions sqlite_ilike (get_keywords_list selection_field) p))
        (papers selection_db) = take 3 (papers selection_db)
   \<and> map p_id (papers selection_db) = [1, 2, 3, 4, 5, 6, 7]
   \<and> map publish_date (papers selection_db)
       = [Some 1000, Some 1000, Some 2000, Some 3000, Some 999, Some 4000, None]
   \<and> selection_now - seven_days = 1000
   \<and> map p_id (get_pending_papers sqlite_ilike rev selection_now selection_db 2
        (Some [selection_field])) = [3, 2]
   \<and> map p_id (get_pending_papers sqlite_ilike id selection_now selection_db 2
        (Some [selection_field])) = [3, 1]
   \<and> length (get_pending_papers sqlite_ilike rev selection_now selection_db 2
        (Some [selection_field]))
       = min (length (take 3 (papers selection_db))) (nat 2)
   \<and> map p_id (get_papers_for_briefing sqlite_ilike rev selection_db (Some 2) (Some 1000)
        (Some [selection_field])) = [3, 2]"
proof -
  have h: "\<forall>rows :: (paper \<times> briefing option) list. mset (rev rows) = mset rows" by simp
  have h': "\<forall>rows :: (paper \<times> briefing option) list. mset (id rows) = mset rows" by simp
  have k: "get_keywords_list selection_field = [ascii ''transformer'', ascii ''attention'']"
    by (simp add: get_keywords_list_def selection_field_def ascii_def strip_def is_space_def)
  have kk: "(case Some [selection_field] of Some fs \<Rightarrow> concat (map get_keywords_list fs)
             | None \<Rightarrow> []) = [ascii ''transformer'', ascii ''attention'']"
    by (simp add: k)
  have e: "filter (\<lambda>p. (\<forall>b \<in> set (briefings selection_db). b_paper_id b \<noteq> p_id p)
                \<and> (case publish_date p of Some d \<Rightarrow> selection_now - seven_days \<le> d
                    | None \<Rightarrow> False)
                \<and> ([ascii ''transformer'', ascii ''attention''] = []
                    \<or> keyword_conditions sqlite_ilike
                         [ascii ''transformer'', ascii ''attention''] p))
        (papers selection_db) = take 3 (papers selection_db)"
    by code_simp
  have es: "filter (\<lambda>p. (\<forall>b \<in> set (briefings selection_db). b_paper_id b \<noteq> p_id p)
                \<and> (case Some 1000 of
                      Some s \<Rightarrow> (case publish_date p of Some d \<Rightarrow> s \<le> d | None \<Rightarrow> False)
                    | None \<Rightarrow> True)
                \<and> ([ascii ''transformer'', ascii ''attention''] = []
                    \<or> keyword_conditions sqlite_ilike
                         [ascii ''transformer'', ascii ''attention''] p))
        (papers selection_db) = take 3 (papers selection_db)"
    by code_simp
  have ids: "map p_id (papers selection_db) = [1, 2, 3, 4, 5, 6, 7]" by code_simp
  have dates: "map publish_date (papers selection_db)
       = [Some 1000, Some 1000, Some 2000, Some 3000, Some 999, Some 4000, None]"
    by code_simp
  have edge: "selection_now - seven_days = 1000" by (simp add: selection_now_def)
  have c: "map p_id (limit_rows 2 (order_by_desc publish_date
        (map fst (rev (map (\<lambda>p. (p, None :: briefing option)) (take 3 (papers selection_db)))))))
      = [3, 2]"
    by code_simp
  have c': "map p_id (limit_rows 2 (order_by_desc publish_date
        (map fst (id (map (\<lambda>p. (p, None :: briefing option)) (take 3 (papers selection_db)))))))
      = [3, 1]"
    by code_simp
  note t = pending_papers_selection [OF h refl refl refl refl refl, where ilike = sqlite_ilike
      and now = selection_now and db = selection_db and limit = 2
      and rfs = "Some [selection_field]" and max_rows = "Some 2" and since = "Some 1000",
      unfolded kk e es]
  note t' = pending_papers_selection [OF h' refl refl refl refl refl, where ilike = sqlite_ilike
      and now = selection_now and db = selection_db and limit = 2
      and rfs = "Some [selection_field]" and max_rows = "Some 2" and since = "Some 1000",
      unfolded kk e es]
  have f: "filter (\<lambda>p. (\<forall>b \<in> set (briefings selection_db). b_paper_id b \<noteq> p_id p)
                \<and> (case publish_date p of Some d \<Rightarrow> selection_now - seven_days \<le> d
                    | None \<Rightarrow> False)
                \<and> (get_keywords_list selection_field = []
                    \<or> keyword_conditions sqlite_ilike (get_keywords_list selection_field) p))
        (papers selection_db) = take 3 (papers selection_db)"
    unfolding k by (rule e)
  from t [THEN conjunct2, THEN conjunct2, THEN conjunct2, THEN conjunct2, THEN conjunct1]
  have v: "map p_id (get_pending_papers sqlite_ilike rev selection_now selection_db 2
        (Some [selection_field])) = [3, 2]"
    by (simp only: c)
  from t' [THEN conjunct2, THEN conjunct2, THEN conjunct2, THEN conjunct2, THEN conjunct1]
  have v': "map p_id (get_pending_papers sqlite_ilike id selection_now selection_db 2
        (Some [selection_field])) = [3, 1]"
    by (simp only: c')
  from t [THEN conjunct2, THEN conjunct2, THEN conjunct2, THEN conjunct2, THEN conjunct2,
      THEN conjunct2, THEN conjunct1]
  have l: "length (get_pending_papers sqlite_ilike rev selection_now selection_db 2
        (Some [selection_field]))
       = min (length (take 3 (papers selection_db))) (nat 2)"
    by simp
  from t [THEN conjunct2, THEN conjunct2, THEN conjunct2, THEN conjunct2, THEN conjunct2,
      THEN conjunct2, THEN conjunct2, THEN conjunct2, THEN conjunct2, THEN conjunct2,
      THEN conjunct1]
  have "get_papers_for_briefing sqlite_ilike rev selection_db (Some 2) (Some 1000)
        (Some [selection_field])
      = limit_rows 2 (order_by_desc publish_date
        (map fst (rev (map (\<lambda>p. (p, None :: briefing option)) (take 3 (papers selection_db))))))"
    by simp
  then have g: "map p_id (get_papers_for_briefing sqlite_ilike rev selection_db (Some 2)
        (Some 1000) (Some [selection_field])) = [3, 2]"
    by (simp only: c)
  from h k f ids dates edge v v' l g show ?thesis by (intro conjI)
qed

section \<open>Properties of briefing generation\<close>

lemma store_briefing_appends:
  "\<exists>b. store_briefing cfg outcome now db paper = (db\<lparr>briefings := briefings db @ [b]\<rparr>, Some b)
       \<and> b_paper_id b = p_id paper
       \<and> content b = generate_briefing cfg outcome (title paper) (authors paper) (abstract paper)
                        (venue paper)"
  by (simp add: store_briefing_def add_briefing_def Let_def)

lemma lookup_briefing_None:
  "lookup_briefing db paper = None \<longleftrightarrow> p_id paper \<notin> set (map b_paper_id (briefings db))"
  unfolding lookup_briefing_def first_row_None_iff by (force simp: image_iff)

lemma generate_single_briefing_cases:
  "generate_single_briefing cfg outcome now db paper = (db, lookup_briefing db paper)
     \<and> lookup_briefing db paper \<noteq> None
   \<or> p_id paper \<notin> set (map b_paper_id (briefings db))
     \<and> (\<exists>b. generate_single_briefing cfg outcome now db paper
               = (db\<lparr>briefings := briefings db @ [b]\<rparr>, Some b)
            \<and> b_paper_id b = p_id paper
            \<and> content b = generate_briefing cfg outcome (title paper) (authors paper)
                             (abstract paper) (venue paper))"
proof (cases "lookup_briefing db paper")
  case None
  then have "generate_single_briefing cfg outcome now db paper = store_briefing cfg outcome now db paper"
    by (simp add: generate_single_briefing_def)
  with store_briefing_appends [of cfg outcome now db paper] None show ?thesis
    by (simp add: lookup_briefing_None)
next
  case (Some existing)
  then show ?thesis by (simp add: generate_single_briefing_def)
qed

lemma generate_single_briefing_distinct:
  assumes "distinct (map b_paper_id (briefings db))"
  shows "distinct (map b_paper_id (briefings (fst (generate_single_briefing cfg outcome now db paper))))"
  using generate_single_briefing_cases [of cfg outcome now db paper] assms by auto

lemma generate_loop_distinct:
  "distinct (map b_paper_id (briefings db)) \<Longrightarrow>
   distinct (map b_paper_id (briefings (fst (generate_loop cfg collaborator db ps))))"
proof (induction ps arbitrary: db)
  case Nil
  then show ?case by simp
next
  case (Cons paper rest)
  let ?r = "generate_single_briefing cfg (fst (collaborator paper)) (snd (collaborator paper)) db paper"
  from Cons.prems have d: "distinct (map b_paper_id (briefings (fst ?r)))"
    by (rule generate_single_briefing_distinct)
  have "fst (generate_loop cfg collaborator db (paper # rest))
      = fst (generate_loop cfg collaborator (fst ?r) rest)"
    by (cases ?r) (simp split: option.splits prod.splits)
  with Cons.IH [OF d] show ?case by simp
qed

lemma generation_two_steps:
  "generation_step cfg outcome now (fst (generation_step cfg outcome now db (Started paper)))
     (snd (generation_step cfg outcome now db (Started paper)))
   = (fst (generate_single_briefing cfg outcome now db paper),
      Returned (snd (generate_single_briefing cfg outcome now db paper)))"
  by (cases "lookup_briefing db paper")
    (simp_all add: generate_single_briefing_def split: prod.splits)

text \<open>
  C1 as stated fails. Two invocations of \<open>_generate_single_briefing\<close> for paper 1 start
  on a database with no briefing; both look up before either inserts. Both inserts are
  accepted, and the table holds two briefings of paper 1.
\<close>

theorem concurrent_generation_counterexample:
  "map b_paper_id (briefings example_paper_db) = []
   \<and> map (\<lambda>b. (b_id b, b_paper_id b))
        (briefings (fst (run_schedule no_backend_settings Raised 100
           (example_paper_db, [Started example_paper, Started example_paper]) [0, 1, 0, 1])))
      = [(1, 1), (2, 1)]"
  by (simp add: example_paper_db_def lookup_briefing_def first_row_def store_briefing_def
      add_briefing_def next_id_def Let_def example_paper_def)

text \<open>
  C1, amended. When the invocations run one after another, at most one briefing per paper
  exists afterwards: from a table in which no two briefings share a \<open>paper_id\<close>, any
  sequence of \<open>_generate_single_briefing\<close> calls (the loop of \<open>generate_briefings\<close>,
  on any list of papers) leads to such a table again. This rests on the lookup each call
  makes before it inserts; the table itself accepts every insert, also of a second
  briefing of a paper.
\<close>

theorem one_briefing_per_paper_sequential:
  assumes "distinct (map b_paper_id (briefings db))"
  shows "distinct (map b_paper_id (briefings (fst (generate_loop cfg collaborator db ps))))
       \<and> distinct (map b_paper_id (briefings (fst (generate_briefings cfg ilike scan collaborator
                     now db papers_arg max_papers rfs))))
       \<and> add_briefing db row
           = Inr (db\<lparr>briefings := briefings db @ [row\<lparr>b_id := next_id (map b_id (briefings db))\<rparr>]\<rparr>,
                  row\<lparr>b_id := next_id (map b_id (briefings db))\<rparr>)"
proof -
  have a: "distinct (map b_paper_id (briefings (fst (generate_loop cfg collaborator db ps))))"
    using assms by (rule generate_loop_distinct)
  have b: "distinct (map b_paper_id (briefings (fst (generate_briefings cfg ilike scan collaborator
                     now db papers_arg max_papers rfs))))"
    unfolding generate_briefings_def Let_def using assms by (rule generate_loop_distinct)
  have c: "add_briefing db row
           = Inr (db\<lparr>briefings := briefings db @ [row\<lparr>b_id := next_id (map b_id (briefings db))\<rparr>]\<rparr>,
                  row\<lparr>b_id := next_id (map b_id (briefings db))\<rparr>)"
    by (simp add: add_briefing_def Let_def)
  from a b c show ?thesis by (simp only: simp_thms)
qed

theorem one_briefing_per_paper_sequential_witness:
  "distinct (map b_paper_id (briefings example_paper_db))
   \<and> map (\<lambda>b. (b_id b, b_paper_id b))
        (briefings (fst (generate_loop no_backend_settings (\<lambda>p. (Raised, 100)) example_paper_db
           [example_paper, example_paper]))) = [(1, 1)]
   \<and> distinct (map b_paper_id
        (briefings (fst (generate_loop no_backend_settings (\<lambda>p. (Raised, 100)) example_paper_db
           [example_paper, example_paper]))))"
proof -
  have h: "distinct (map b_paper_id (briefings example_paper_db))"
    by (simp add: example_paper_db_def)
  have v: "map (\<lambda>b. (b_id b, b_paper_id b))
        (briefings (fst (generate_loop no_backend_settings (\<lambda>p. (Raised, 100)) example_paper_db
           [example_paper, example_paper]))) = [(1, 1)]"
    by (simp add: example_paper_db_def generate_single_briefing_def lookup_briefing_def
        first_row_def store_briefing_def add_briefing_def next_id_def Let_def example_paper_def)
  from one_briefing_per_paper_sequential [OF h, of no_backend_settings "\<lambda>p. (Raised, 100)"
      "[example_paper, example_paper]"]
  have "distinct (map b_paper_id
        (briefings (fst (generate_loop no_backend_settings (\<lambda>p. (Raised, 100)) example_paper_db
           [example_paper, example_paper]))))"
    by (rule conjunct1)
  with h v show ?thesis by (simp only: simp_thms)
qed

section \<open>Properties of the fan-out\<close>

lemma distinct_map_mset:
  assumes "mset xs = mset ys" and "distinct (map f ys)"
  shows "distinct (map f xs)"
proof -
  from assms(1) have "mset (map f xs) = mset (map f ys)" by simp
  with assms(2) show ?thesis by (metis mset_eq_imp_distinct_iff)
qed

lemma filter_key_at_most_one:
  "distinct (map key rows) \<Longrightarrow> length (filter (\<lambda>r. key r = k) rows) \<le> 1"
  by (induction rows) (auto simp: filter_empty_conv image_iff)

lemma join_paper_Cons:
  "join_paper (b # bs) ps
     = map (\<lambda>p. (b, p)) (filter (\<lambda>p. p_id p = b_paper_id b) ps) @ join_paper bs ps"
  by (simp add: join_paper_def)

lemma join_paper_ids: "set (map (\<lambda>row. b_id (fst row)) (join_paper bs ps)) \<subseteq> set (map b_id bs)"
  by (auto simp: join_paper_def)

lemma distinct_join_paper:
  assumes "distinct (map p_id ps)"
  shows "distinct (map b_id bs) \<Longrightarrow> distinct (map (\<lambda>row. b_id (fst row)) (join_paper bs ps))"
proof (induction bs)
  case Nil
  show ?case by (simp add: join_paper_def)
next
  case (Cons b bs)
  let ?m = "filter (\<lambda>p. p_id p = b_paper_id b) ps"
  from assms have "length ?m \<le> 1" by (rule filter_key_at_most_one)
  then have one: "distinct (map (\<lambda>row. b_id (fst row)) (map (\<lambda>p. (b, p)) ?m))"
    by (cases ?m) (simp_all add: comp_def)
  have ids: "set (map (\<lambda>row. b_id (fst row)) (map (\<lambda>p. (b, p)) ?m)) \<subseteq> {b_id b}"
    by auto
  from Cons.prems have "b_id b \<notin> set (map b_id bs)" and d: "distinct (map b_id bs)" by simp_all
  with join_paper_ids [of bs ps]
  have "b_id b \<notin> set (map (\<lambda>row. b_id (fst row)) (join_paper bs ps))" by blast
  with ids have disj: "set (map (\<lambda>row. b_id (fst row)) (map (\<lambda>p. (b, p)) ?m))
      \<inter> set (map (\<lambda>row. b_id (fst row)) (join_paper bs ps)) = {}" by blast
  from one Cons.IH [OF d] disj show ?case
    unfolding join_paper_Cons map_append distinct_append by blast
qed

lemma unassigned_briefings_sound:
  assumes "row \<in> set (unassigned_briefings ilike db usr)"
  shows "(u_id usr, b_id (fst row))
           \<notin> set (map (\<lambda>ub. (ub_user_id ub, ub_briefing_id ub)) (user_briefings db))"
proof -
  define q where "q = filter (\<lambda>(b, p). b_id b \<notin> set (map ub_briefing_id
            (filter (\<lambda>ub. ub_user_id ub = u_id usr) (user_briefings db))))
          (join_paper (briefings db) (papers db))"
  have "unassigned_briefings ilike db usr
      = filter_by_keywords ilike (concat (map get_keywords_list (research_fields usr))) snd q"
    unfolding unassigned_briefings_def Let_def q_def ..
  with assms have "row \<in> set (filter_by_keywords ilike
      (concat (map get_keywords_list (research_fields usr))) snd q)" by simp
  then have "row \<in> set q" by (rule subsetD [OF set_filter_by_keywords])
  then have "b_id (fst row) \<notin> set (map ub_briefing_id
            (filter (\<lambda>ub. ub_user_id ub = u_id usr) (user_briefings db)))"
    unfolding q_def by (simp add: case_prod_beta)
  then show ?thesis by (auto simp: image_iff)
qed

lemma distinct_unassigned_briefings:
  assumes "distinct (map b_id (briefings db))" and "distinct (map p_id (papers db))"
  shows "distinct (map (\<lambda>row. b_id (fst row)) (unassigned_briefings ilike db usr))"
proof -
  from assms have "distinct (map (\<lambda>row. b_id (fst row)) (join_paper (briefings db) (papers db)))"
    by (simp add: distinct_join_paper)
  then show ?thesis
    by (simp add: unassigned_briefings_def Let_def filter_by_keywords_def distinct_map_filter)
qed

lemma assign_ids_columns:
  "length (assign_ids k rows) = length rows"
  "map (\<lambda>ub. (ub_user_id ub, ub_briefing_id ub, is_sent ub, sent_at ub)) (assign_ids k rows)
     = map (\<lambda>ub. (ub_user_id ub, ub_briefing_id ub, is_sent ub, sent_at ub)) rows"
  by (induction rows arbitrary: k) simp_all

lemma add_user_briefings_accepts:
  assumes "distinct (map (\<lambda>ub. (ub_user_id ub, ub_briefing_id ub)) rows)"
    and "\<forall>ub \<in> set rows. (ub_user_id ub, ub_briefing_id ub)
           \<notin> set (map (\<lambda>ub. (ub_user_id ub, ub_briefing_id ub)) (user_briefings db))"
  shows "add_user_briefings db rows
     = Inr (db\<lparr>user_briefings := user_briefings db
                @ assign_ids (next_id (map ub_id (user_briefings db))) rows\<rparr>,
            assign_ids (next_id (map ub_id (user_briefings db))) rows)"
  using assms by (simp add: add_user_briefings_def Let_def)

lemma distinct_limit_rows:
  "distinct (map f rows) \<Longrightarrow> distinct (map f (limit_rows n rows))"
  by (simp add: limit_rows_def flip: take_map)

lemma distinct_map_Pair:
  "distinct (map g rows) \<Longrightarrow> distinct (map (\<lambda>r. (c, g r)) rows)"
proof -
  assume "distinct (map g rows)"
  then have "distinct (map (Pair c) (map g rows))"
    by (simp add: distinct_map inj_on_def)
  then show ?thesis by (simp add: comp_def)
qed

lemma create_user_briefings_result:
  assumes scan: "\<forall>rows. mset (scan rows) = mset rows"
    and b: "distinct (map b_id (briefings db))" and p: "distinct (map p_id (papers db))"
  shows "\<exists>selected.
           selected = limit_rows (daily_paper_limit usr * 3)
                        (order_by_desc (\<lambda>(b, p). publish_date p)
                           (scan (unassigned_briefings ilike db usr)))
         \<and> create_user_briefings ilike scan now db usr
             = (db\<lparr>user_briefings := user_briefings db @ snd (create_user_briefings ilike scan now db usr)\<rparr>,
                snd (create_user_briefings ilike scan now db usr))
         \<and> map (\<lambda>ub. (ub_user_id ub, ub_briefing_id ub, is_sent ub, sent_at ub))
               (snd (create_user_briefings ilike scan now db usr))
             = map (\<lambda>row. (u_id usr, b_id (fst row), False, None)) selected"
proof -
  define U where "U = unassigned_briefings ilike db usr"
  define sel where "sel = limit_rows (daily_paper_limit usr * 3)
                        (order_by_desc (\<lambda>(b, p). publish_date p) (scan U))"
  define new_rows where "new_rows = map (\<lambda>briefing.
                        \<lparr>ub_id = 0, ub_user_id = u_id usr, ub_briefing_id = b_id briefing,
                         is_sent = False, sent_at = None, is_read = False, read_at = None,
                         is_interested = False, ub_created_at = now\<rparr>) (map fst sel)"
  have cub: "create_user_briefings ilike scan now db usr
      = (case add_user_briefings db new_rows of
           Inr (db', stored) \<Rightarrow> (db', stored)
         | Inl e \<Rightarrow> (db, []))"
    unfolding create_user_briefings_def Let_def new_rows_def sel_def U_def ..
  from scan have m: "mset (order_by_desc (\<lambda>(b, p). publish_date p) (scan U)) = mset U"
    by (simp add: mset_order_by_desc)
  from b p have "distinct (map (\<lambda>row. b_id (fst row)) U)"
    unfolding U_def by (rule distinct_unassigned_briefings)
  with m have "distinct (map (\<lambda>row. b_id (fst row))
      (order_by_desc (\<lambda>(b, p). publish_date p) (scan U)))"
    by (rule distinct_map_mset)
  then have ds: "distinct (map (\<lambda>row. b_id (fst row)) sel)"
    unfolding sel_def by (rule distinct_limit_rows)
  have pairs: "map (\<lambda>ub. (ub_user_id ub, ub_briefing_id ub)) new_rows
      = map (\<lambda>row. (u_id usr, b_id (fst row))) sel"
    by (simp add: new_rows_def comp_def)
  from ds have d: "distinct (map (\<lambda>ub. (ub_user_id ub, ub_briefing_id ub)) new_rows)"
    unfolding pairs by (rule distinct_map_Pair)
  have "set sel \<subseteq> set (order_by_desc (\<lambda>(b, p). publish_date p) (scan U))"
    unfolding sel_def by (rule set_limit_rows)
  also have "\<dots> = set U" using m by (rule mset_eq_setD)
  finally have sub: "set sel \<subseteq> set U" .
  have fresh: "\<forall>ub \<in> set new_rows. (ub_user_id ub, ub_briefing_id ub)
           \<notin> set (map (\<lambda>ub. (ub_user_id ub, ub_briefing_id ub)) (user_briefings db))"
  proof
    fix ub
    assume "ub \<in> set new_rows"
    then obtain row where row: "row \<in> set sel"
      and ub: "(ub_user_id ub, ub_briefing_id ub) = (u_id usr, b_id (fst row))"
      unfolding new_rows_def by auto
    from row sub have "row \<in> set (unassigned_briefings ilike db usr)"
      unfolding U_def by blast
    from unassigned_briefings_sound [OF this] ub
    show "(ub_user_id ub, ub_briefing_id ub)
           \<notin> set (map (\<lambda>ub. (ub_user_id ub, ub_briefing_id ub)) (user_briefings db))"
      by simp
  qed
  let ?stored = "assign_ids (next_id (map ub_id (user_briefings db))) new_rows"
  from add_user_briefings_accepts [OF d fresh]
  have res: "create_user_briefings ilike scan now db usr
      = (db\<lparr>user_briefings := user_briefings db @ ?stored\<rparr>, ?stored)"
    unfolding cub by simp
  have cols: "map (\<lambda>ub. (ub_user_id ub, ub_briefing_id ub, is_sent ub, sent_at ub)) ?stored
      = map (\<lambda>row. (u_id usr, b_id (fst row), False, None)) sel"
    unfolding assign_ids_columns by (simp add: new_rows_def comp_def)
  from res cols show ?thesis unfolding sel_def U_def by simp
qed

text \<open>
  C5. One \<open>create_user_briefings\<close> call creates exactly \<open>min(n, daily_paper_limit * 3)\<close>
  rows, where \<open>n\<close> is the number of briefings not yet assigned to the user that pass the
  user's keyword filter, so never more than \<open>daily_paper_limit * 3\<close>; every created
  row belongs to the user and is pending (\<open>is_sent\<close> false, no \<open>sent_at\<close>), and the
  rows are appended to the table. The engine yields each selected row once, the keys of
  \<open>briefings\<close> and \<open>papers\<close> are unique, and the limit is not negative (the settings
  keep it between 1 and 50).
\<close>

theorem fanout_bounded_and_pending:
  assumes "\<forall>rows. mset (scan rows) = mset rows"
    and "distinct (map b_id (briefings db))" and "distinct (map p_id (papers db))"
    and "0 \<le> daily_paper_limit usr"
  shows "int (length (snd (create_user_briefings ilike scan now db usr)))
           = min (int (length (unassigned_briefings ilike db usr))) (daily_paper_limit usr * 3)
       \<and> int (length (snd (create_user_briefings ilike scan now db usr)))
           \<le> daily_paper_limit usr * 3
       \<and> (\<forall>ub \<in> set (snd (create_user_briefings ilike scan now db usr)).
            \<not> is_sent ub \<and> sent_at ub = None \<and> ub_user_id ub = u_id usr)
       \<and> user_briefings (fst (create_user_briefings ilike scan now db usr))
           = user_briefings db @ snd (create_user_briefings ilike scan now db usr)"
proof -
  let ?created = "snd (create_user_briefings ilike scan now db usr)"
  let ?U = "unassigned_briefings ilike db usr"
  from create_user_briefings_result [OF assms(1-3), of usr ilike now]
  obtain selected where
    sel: "selected = limit_rows (daily_paper_limit usr * 3)
                        (order_by_desc (\<lambda>(b, p). publish_date p) (scan ?U))"
    and res: "create_user_briefings ilike scan now db usr
             = (db\<lparr>user_briefings := user_briefings db @ ?created\<rparr>, ?created)"
    and cols: "map (\<lambda>ub. (ub_user_id ub, ub_briefing_id ub, is_sent ub, sent_at ub)) ?created
             = map (\<lambda>row. (u_id usr, b_id (fst row), False, None)) selected"
    by blast
  from arg_cong [OF cols, of length] have len: "length ?created = length selected" by simp
  from assms(1) have "mset (scan ?U) = mset ?U" by simp
  then have "length (scan ?U) = length ?U" by (rule mset_eq_length)
  then have "length (order_by_desc (\<lambda>(b, p). publish_date p) (scan ?U)) = length ?U"
    by (simp add: length_order_by_desc)
  moreover from assms(4) have n: "0 \<le> daily_paper_limit usr * 3" by simp
  ultimately have "length selected = min (length ?U) (nat (daily_paper_limit usr * 3))"
    unfolding sel by (simp add: length_limit_rows)
  with len have "length ?created = min (length ?U) (nat (daily_paper_limit usr * 3))"
    by simp
  with n have a: "int (length ?created) = min (int (length ?U)) (daily_paper_limit usr * 3)"
    by linarith
  then have b: "int (length ?created) \<le> daily_paper_limit usr * 3" by simp
  have c: "\<forall>ub \<in> set ?created. \<not> is_sent ub \<and> sent_at ub = None \<and> ub_user_id ub = u_id usr"
  proof
    fix ub
    assume "ub \<in> set ?created"
    then have "(ub_user_id ub, ub_briefing_id ub, is_sent ub, sent_at ub)
        \<in> set (map (\<lambda>ub. (ub_user_id ub, ub_briefing_id ub, is_sent ub, sent_at ub)) ?created)"
      by (simp only: set_map) (rule imageI)
    then have "(ub_user_id ub, ub_briefing_id ub, is_sent ub, sent_at ub)
        \<in> set (map (\<lambda>row. (u_id usr, b_id (fst row), False, None)) selected)"
      by (simp only: cols)
    then show "\<not> is_sent ub \<and> sent_at ub = None \<and> ub_user_id ub = u_id usr" by auto
  qed
  from res have "fst (create_user_briefings ilike scan now db usr)
      = db\<lparr>user_briefings := user_briefings db @ ?created\<rparr>"
    by (metis fst_conv)
  then have d: "user_briefings (fst (create_user_briefings ilike scan now db usr))
           = user_briefings db @ ?created"
    by simp
  from a b c d show ?thesis by (simp only: simp_thms)
qed

lemma fanout_db_keys:
  "map b_id (briefings fanout_db) = [1..20]" "map p_id (papers fanout_db) = [1..20]"
  by (simp_all add: fanout_db_def comp_def)

lemma fanout_db_unassigned: "length (unassigned_briefings (\<lambda>v pat. True) fanout_db fanout_user) = 20"
  by code_simp

theorem fanout_bounded_and_pending_witness:
  "(\<forall>rows :: (briefing \<times> paper) list. mset (rev rows) = mset rows)
   \<and> distinct (map b_id (briefings fanout_db)) \<and> distinct (map p_id (papers fanout_db))
   \<and> 0 \<le> daily_paper_limit fanout_user
   \<and> length (unassigned_briefings (\<lambda>v pat. True) fanout_db fanout_user) = 20
   \<and> daily_paper_limit fanout_user = 5
   \<and> length (snd (create_user_briefings (\<lambda>v pat. True) rev 3000 fanout_db fanout_user)) = 15"
proof -
  have h1: "\<forall>rows :: (briefing \<times> paper) list. mset (rev rows) = mset rows" by simp
  have h2: "distinct (map b_id (briefings fanout_db))" by (simp add: fanout_db_keys)
  have h3: "distinct (map p_id (papers fanout_db))" by (simp add: fanout_db_keys)
  have l: "daily_paper_limit fanout_user = 5" by (simp add: fanout_user_def)
  then have h4: "0 \<le> daily_paper_limit fanout_user" by simp
  from fanout_bounded_and_pending [OF h1 h2 h3 h4, of "\<lambda>v pat. True" 3000]
  have "int (length (snd (create_user_briefings (\<lambda>v pat. True) rev 3000 fanout_db fanout_user)))
      = min (int (length (unassigned_briefings (\<lambda>v pat. True) fanout_db fanout_user)))
          (daily_paper_limit fanout_user * 3)"
    by (rule conjunct1)
  then have "length (snd (create_user_briefings (\<lambda>v pat. True) rev 3000 fanout_db fanout_user)) = 15"
    by (simp add: fanout_db_unassigned l)
  with h1 h2 h3 h4 l fanout_db_unassigned show ?thesis by (simp only: simp_thms)
qed

section \<open>Properties of field matching\<close>













text \<open>
  Generation failure never skips the briefing: for a paper without a briefing
  \<open>_generate_single_briefing\<close> stores one whatever the generation service does, with
  the text \<open>generate_briefing\<close> returns.
\<close>

lemma briefing_created_whatever_the_outcome:
  assumes "p_id paper \<notin> set (map b_paper_id (briefings db))"
  shows "\<exists>b. generate_single_briefing cfg outcome now db paper
               = (db\<lparr>briefings := briefings db @ [b]\<rparr>, Some b)
            \<and> b_paper_id b = p_id paper
            \<and> content b = generate_briefing cfg outcome (title paper) (authors paper)
                             (abstract paper) (venue paper)"
  using generate_single_briefing_cases [of cfg outcome now db paper] assms
  by (auto simp: lookup_briefing_None)

end
